theory Spec2Isabelle
  imports Complex_Main "HOL-Library.Multiset"
begin

section \<open>Data model of camFusion_Student.cpp\<close>

text \<open>
  The C++ types \<^verbatim>\<open>float\<close> and \<^verbatim>\<open>double\<close> are modelled by the real numbers they
  denote. Rounding is written out for the \<^verbatim>\<open>float\<close> arithmetic on the shrink factor
  of clusterLidarWithROI, where it decides the extent of a region; elsewhere arithmetic is
  exact. \<^verbatim>\<open>int\<close> is modelled by the unbounded integers, and a conversion from a floating value to
  \<^verbatim>\<open>int\<close> that leaves the 32-bit range is an explicit failure. The results a double can
  hold besides a finite number are the constructors \<open>Infty\<close> and \<open>NaN\<close> of the type
  \<open>dbl\<close> below.
\<close>

datatype error =
    OutOfRange      \<comment> \<open>\<^verbatim>\<open>std::out_of_range\<close> thrown by \<^verbatim>\<open>vector::at\<close>\<close>
  | Undefined       \<comment> \<open>undefined behaviour: unchecked index past the end, non-representable conversion to int\<close>
  | SizeMismatch    \<comment> \<open>\<^verbatim>\<open>cv::Exception\<close> of a matrix product whose inner dimensions differ\<close>

type_synonym Point = "int \<times> int"
type_synonym Point2f = "real \<times> real"

record Rect =
  rx :: int
  ry :: int
  rwidth :: int
  rheight :: int

record LidarPoint =
  lp_x :: real
  lp_y :: real
  lp_z :: real
  lp_r :: real

record KeyPoint =
  pt :: Point2f

record DMatch =
  queryIdx :: int
  trainIdx :: int
  imgIdx :: int
  distance :: real

record BoundingBox =
  boxID :: int
  roi :: Rect
  lidarPoints :: "LidarPoint list"
  kptMatches :: "DMatch list"

record DataFrame =
  keypoints :: "KeyPoint list"
  boundingBoxes :: "BoundingBox list"

section \<open>median\<close>

text \<open>
  \<^verbatim>\<open>std::nth_element\<close> is library code. Its contract in the C++ standard: the range is
  permuted, and the element at the position \<open>nth\<close> is the element that would be there
  if the whole range were sorted. \<open>median\<close> takes the library function as a parameter and
  threads the vector through the two calls as the source does (the second call works on
  the vector as the first call left it).
\<close>

definition nth_element_contract :: "(nat \<Rightarrow> real list \<Rightarrow> real list) \<Rightarrow> bool" where
  "nth_element_contract nth_element =
     (\<forall>k xs. k < length xs \<longrightarrow>
        mset (nth_element k xs) = mset xs \<and> nth_element k xs ! k = sort xs ! k)"

definition median :: "(nat \<Rightarrow> real list \<Rightarrow> real list) \<Rightarrow> real list \<Rightarrow> real" where
  "median nth_element distRatios =
     (let sz = length distRatios; n = sz div 2 in
      if sz = 0 then 0
      else
        let d1 = nth_element n distRatios; retVal = d1 ! n in
        if sz mod 2 = 0
        then (let d2 = nth_element (n - 1) d1 in (retVal + d2 ! (n - 1)) / 2)
        else retVal)"

section \<open>Arithmetic of the C++ number types\<close>

text \<open>
  A \<^verbatim>\<open>double\<close> result is a finite number, an infinity or not-a-number. Division follows
  IEEE 754 on these values: a non-zero number divided by zero is an infinity and zero
  divided by zero is not-a-number. The sign of an infinity is not recorded.
\<close>

datatype dbl = Fin real | Infty | NaN

fun dbl_div :: "dbl \<Rightarrow> dbl \<Rightarrow> dbl" where
  "dbl_div (Fin a) (Fin b) = (if b \<noteq> 0 then Fin (a / b) else if a = 0 then NaN else Infty)"
| "dbl_div (Fin a) Infty = Fin 0"
| "dbl_div Infty (Fin b) = Infty"
| "dbl_div Infty Infty = NaN"
| "dbl_div NaN y = NaN"
| "dbl_div x NaN = NaN"

fun dbl_mul :: "dbl \<Rightarrow> dbl \<Rightarrow> dbl" where
  "dbl_mul (Fin a) (Fin b) = Fin (a * b)"
| "dbl_mul (Fin a) Infty = (if a = 0 then NaN else Infty)"
| "dbl_mul Infty (Fin b) = (if b = 0 then NaN else Infty)"
| "dbl_mul Infty Infty = Infty"
| "dbl_mul NaN y = NaN"
| "dbl_mul x NaN = NaN"

fun dbl_neg :: "dbl \<Rightarrow> dbl" where
  "dbl_neg (Fin a) = Fin (- a)"
| "dbl_neg Infty = Infty"
| "dbl_neg NaN = NaN"

definition dbl_epsilon :: real where
  \<comment> \<open>\<^verbatim>\<open>std::numeric_limits<double>::epsilon()\<close>\<close>
  "dbl_epsilon = 1 / 2 ^ 52"

definition trunc :: "real \<Rightarrow> int" where
  \<comment> \<open>conversion of a floating value to int discards the fractional part\<close>
  "trunc x = (if 0 \<le> x then \<lfloor>x\<rfloor> else \<lceil>x\<rceil>)"

definition int_range :: "real \<Rightarrow> bool" where
  \<comment> \<open>the values whose integer part is a 32-bit int\<close>
  "int_range x = (- 2147483649 < x \<and> x < 2147483648)"

fun dbl_to_int :: "dbl \<Rightarrow> error + int" where
  "dbl_to_int (Fin x) = (if int_range x then Inr (trunc x) else Inl Undefined)"
| "dbl_to_int Infty = Inl Undefined"
| "dbl_to_int NaN = Inl Undefined"

definition cvRound :: "real \<Rightarrow> int" where
  \<comment> \<open>OpenCV's \<^verbatim>\<open>cvRound\<close>: to the nearest integer, a tie to the even one\<close>
  "cvRound x =
     (let f = \<lfloor>x\<rfloor>; d = x - of_int f in
      if d < 1 / 2 then f else if 1 / 2 < d then f + 1 else if even f then f else f + 1)"

definition saturate_cast_int :: "real \<Rightarrow> error + int" where
  \<comment> \<open>\<^verbatim>\<open>cv::saturate_cast<int>(float)\<close> is \<^verbatim>\<open>cvRound\<close>\<close>
  "saturate_cast_int x = (if int_range x then Inr (cvRound x) else Inl Undefined)"

text \<open>
  Arithmetic in \<^verbatim>\<open>float\<close> rounds every result to the nearest number with 24 significant
  bits, a tie to the one with an even last bit; \<^verbatim>\<open>double\<close> has 53 bits. Below the
  least normal exponent the spacing stays that of the subnormal numbers. A result whose
  rounded magnitude exceeds the largest float is an infinity.
\<close>

function bit_length :: "nat \<Rightarrow> nat" where
  \<comment> \<open>the number of binary digits\<close>
  "bit_length n = (if n = 0 then 0 else Suc (bit_length (n div 2)))"
  by pat_completeness auto
termination
  by (relation "measure id") auto

declare bit_length.simps [simp del]

definition ilog2 :: "real \<Rightarrow> int" where
  \<comment> \<open>the binary exponent of a positive number: the integer part of its logarithm to base 2\<close>
  "ilog2 x =
     (if 1 \<le> x then int (bit_length (nat \<lfloor>x\<rfloor>)) - 1
      else - int (bit_length (nat (\<lceil>1 / x\<rceil> - 1))))"

definition pow2 :: "int \<Rightarrow> real" where
  "pow2 k = (if 0 \<le> k then 2 ^ nat k else 1 / 2 ^ nat (- k))"

definition fl_round :: "nat \<Rightarrow> int \<Rightarrow> real \<Rightarrow> real" where
  \<comment> \<open>round to nearest, ties to even, with \<open>p\<close> significant bits and least normal
      exponent \<open>emin\<close>\<close>
  "fl_round p emin x =
     (if x = 0 then 0
      else (let e = max (ilog2 \<bar>x\<bar>) emin; ulp = pow2 (e - int p + 1)
            in of_int (cvRound (x / ulp)) * ulp))"

definition f32 :: "real \<Rightarrow> real" where
  "f32 x = fl_round 24 (- 126) x"

definition f64 :: "real \<Rightarrow> real" where
  "f64 x = fl_round 53 (- 1022) x"

definition f32_max :: real where
  \<comment> \<open>\<^verbatim>\<open>FLT_MAX\<close>\<close>
  "f32_max = (2 ^ 24 - 1) * 2 ^ 104"

definition f32_finite :: "real \<Rightarrow> bool" where
  \<comment> \<open>the float result for the exact value \<open>x\<close> is not an infinity\<close>
  "f32_finite x = (\<bar>f32 x\<bar> \<le> f32_max)"

fun ebind :: "error + 'a \<Rightarrow> ('a \<Rightarrow> error + 'b) \<Rightarrow> error + 'b" where
  "ebind (Inl e) f = Inl e"
| "ebind (Inr x) f = f x"

section \<open>Vectors, points and rectangles\<close>

definition vec_at :: "'a list \<Rightarrow> int \<Rightarrow> error + 'a" where
  \<comment> \<open>\<^verbatim>\<open>std::vector::at\<close>: the int index is converted to \<^verbatim>\<open>size_t\<close>, so a negative
      index is out of range as well\<close>
  "vec_at xs i = (if 0 \<le> i \<and> i < int (length xs) then Inr (xs ! nat i) else Inl OutOfRange)"

definition vec_idx :: "'a list \<Rightarrow> int \<Rightarrow> error + 'a" where
  \<comment> \<open>\<^verbatim>\<open>std::vector::operator[]\<close>: no check, an index past the end is undefined\<close>
  "vec_idx xs i = (if 0 \<le> i \<and> i < int (length xs) then Inr (xs ! nat i) else Inl Undefined)"

definition rect_contains :: "Rect \<Rightarrow> Point \<Rightarrow> bool" where
  \<comment> \<open>\<^verbatim>\<open>cv::Rect::contains\<close>: left and top edges inclusive, right and bottom exclusive\<close>
  "rect_contains r p =
     (rx r \<le> fst p \<and> fst p < rx r + rwidth r \<and> ry r \<le> snd p \<and> snd p < ry r + rheight r)"

definition pt_sub :: "Point2f \<Rightarrow> Point2f \<Rightarrow> Point2f" where
  "pt_sub a b = (fst a - fst b, snd a - snd b)"

definition cv_norm :: "Point2f \<Rightarrow> real" where
  \<comment> \<open>\<^verbatim>\<open>cv::norm\<close> of a point: its Euclidean length\<close>
  "cv_norm p = sqrt (fst p * fst p + snd p * snd p)"

definition cv_Point :: "real \<Rightarrow> real \<Rightarrow> error + Point" where
  \<comment> \<open>\<^verbatim>\<open>cv::Point(float, float)\<close>: each argument is converted to int\<close>
  "cv_Point a b =
     ebind (dbl_to_int (Fin a)) (\<lambda>px. ebind (dbl_to_int (Fin b)) (\<lambda>py. Inr (px, py)))"

definition Point2f_to_Point :: "Point2f \<Rightarrow> error + Point" where
  \<comment> \<open>the implicit conversion of \<^verbatim>\<open>cv::Point2f\<close> to \<^verbatim>\<open>cv::Point\<close> rounds each coordinate\<close>
  "Point2f_to_Point p =
     ebind (saturate_cast_int (fst p)) (\<lambda>px. ebind (saturate_cast_int (snd p)) (\<lambda>py. Inr (px, py)))"

section \<open>Matrices\<close>

text \<open>
  A continuous \<^verbatim>\<open>cv::Mat\<close> of doubles: its dimensions and its buffer, row after row.
  \<^verbatim>\<open>Mat::at<double>(i, j)\<close> is \<^verbatim>\<open>((double*)(data + step * i))[j]\<close>; its index
  assertions are compiled in debug builds only. So it reads the buffer at offset
  \<open>i * cols + j\<close>, also for a column index \<open>j \<ge> cols\<close> as long as the offset is
  inside the buffer; a read past the buffer is undefined. The product of two matrices
  raises an exception when the inner dimensions differ.
\<close>

record Mat =
  rows :: nat
  cols :: nat
  dat :: "real list"

definition mat_at :: "Mat \<Rightarrow> nat \<Rightarrow> nat \<Rightarrow> error + real" where
  "mat_at M i j =
     (let k = i * cols M + j in if k < length (dat M) then Inr (dat M ! k) else Inl Undefined)"

definition el :: "Mat \<Rightarrow> nat \<Rightarrow> nat \<Rightarrow> real" where
  \<comment> \<open>the entry in row \<open>i\<close> and column \<open>j\<close>, for indices inside the matrix\<close>
  "el M i j = dat M ! (i * cols M + j)"

definition mat_prod :: "Mat \<Rightarrow> Mat \<Rightarrow> Mat" where
  "mat_prod A B =
     \<lparr>rows = rows A, cols = cols B,
      dat = map (\<lambda>n. sum_list (map (\<lambda>k. el A (n div cols B) k * el B k (n mod cols B))
                                 [0..<cols A]))
                [0..<rows A * cols B]\<rparr>"

definition mat_mul :: "Mat \<Rightarrow> Mat \<Rightarrow> error + Mat" where
  "mat_mul A B = (if cols A = rows B then Inr (mat_prod A B) else Inl SizeMismatch)"

definition wf_Mat :: "Mat \<Rightarrow> bool" where
  "wf_Mat M = (length (dat M) = rows M * cols M)"

definition mat_vec :: "Mat \<Rightarrow> real list \<Rightarrow> real list" where
  \<comment> \<open>a matrix applied to a column vector\<close>
  "mat_vec M v = map (\<lambda>i. sum_list (map (\<lambda>k. el M i k * v ! k) [0..<cols M])) [0..<rows M]"

section \<open>clusterLidarWithROI\<close>

definition project :: "Mat \<Rightarrow> Mat \<Rightarrow> Mat \<Rightarrow> LidarPoint \<Rightarrow> error + Point" where
  \<comment> \<open>lines 24 to 33: \<open>Y = P_rect_xx * R_rect_xx * RT * X\<close>, then the two divisions,
      each assigned to an int coordinate of \<^verbatim>\<open>cv::Point\<close>\<close>
  "project P_rect_xx R_rect_xx RT p =
     (let X = \<lparr>rows = 4, cols = 1, dat = [lp_x p, lp_y p, lp_z p, 1]\<rparr> in
      ebind (mat_mul P_rect_xx R_rect_xx) (\<lambda>PR.
      ebind (mat_mul PR RT) (\<lambda>PRT.
      ebind (mat_mul PRT X) (\<lambda>Y.
      ebind (mat_at Y 0 0) (\<lambda>y00.
      ebind (mat_at Y 0 2) (\<lambda>y02.
      ebind (dbl_to_int (dbl_div (Fin y00) (Fin y02))) (\<lambda>ptx.
      ebind (mat_at Y 1 0) (\<lambda>y10.
      ebind (mat_at Y 0 2) (\<lambda>y02'.
      ebind (dbl_to_int (dbl_div (Fin y10) (Fin y02'))) (\<lambda>pty.
      Inr (ptx, pty)))))))))))"

definition shrunk_pos :: "real \<Rightarrow> int \<Rightarrow> int \<Rightarrow> real" where
  \<comment> \<open>lines 40 and 41, \<open>roi.x + shrinkFactor * roi.width / 2.0\<close>: the int extent is
      converted to float and the product is a float; the quotient and the sum are doubles\<close>
  "shrunk_pos shrinkFactor x w = f64 (of_int x + f32 (shrinkFactor * f32 (of_int w)) / 2)"

definition shrunk_len :: "real \<Rightarrow> int \<Rightarrow> real" where
  \<comment> \<open>lines 42 and 43, \<open>roi.width * (1 - shrinkFactor)\<close>: the difference and the
      product are floats\<close>
  "shrunk_len shrinkFactor w = f32 (f32 (of_int w) * f32 (1 - shrinkFactor))"

definition shrink_finite :: "real \<Rightarrow> int \<Rightarrow> bool" where
  \<comment> \<open>no float operation on this extent yields an infinity\<close>
  "shrink_finite shrinkFactor w =
     (f32_finite (shrinkFactor * f32 (of_int w)) \<and> f32_finite (1 - shrinkFactor)
      \<and> f32_finite (f32 (of_int w) * f32 (1 - shrinkFactor)))"

definition shrink :: "real \<Rightarrow> Rect \<Rightarrow> error + Rect" where
  \<comment> \<open>lines 39 to 43: \<open>shrinkFactor\<close> is a float and every field of \<open>smallerBox\<close> is
      an int; an infinity has no conversion to int\<close>
  "shrink shrinkFactor r =
     (if shrink_finite shrinkFactor (rwidth r) \<and> shrink_finite shrinkFactor (rheight r)
      then
        ebind (dbl_to_int (Fin (shrunk_pos shrinkFactor (rx r) (rwidth r)))) (\<lambda>sx.
        ebind (dbl_to_int (Fin (shrunk_pos shrinkFactor (ry r) (rheight r)))) (\<lambda>sy.
        ebind (dbl_to_int (Fin (shrunk_len shrinkFactor (rwidth r)))) (\<lambda>sw.
        ebind (dbl_to_int (Fin (shrunk_len shrinkFactor (rheight r)))) (\<lambda>sh.
        Inr \<lparr>rx = sx, ry = sy, rwidth = sw, rheight = sh\<rparr>))))
      else Inl Undefined)"

fun enclosing :: "real \<Rightarrow> Point \<Rightarrow> BoundingBox list \<Rightarrow> nat \<Rightarrow> error + nat list" where
  \<comment> \<open>lines 35 to 51: the positions (from \<open>i\<close> on) of the boxes whose shrunk region
      contains the pixel\<close>
  "enclosing shrinkFactor p [] i = Inr []"
| "enclosing shrinkFactor p (b # bs) i =
     (case shrink shrinkFactor (roi b) of
        Inl e \<Rightarrow> Inl e
      | Inr smallerBox \<Rightarrow>
          (case enclosing shrinkFactor p bs (Suc i) of
             Inl e \<Rightarrow> Inl e
           | Inr rest \<Rightarrow> Inr (if rect_contains smallerBox p then i # rest else rest)))"

definition attach :: "BoundingBox list \<Rightarrow> nat list \<Rightarrow> LidarPoint \<Rightarrow> BoundingBox list" where
  \<comment> \<open>lines 54 to 58\<close>
  "attach boxes enclosingBoxes p =
     (if length enclosingBoxes = 1
      then (let i = enclosingBoxes ! 0 in
            boxes[i := (boxes ! i)
               \<lparr>lidarPoints := lidarPoints (boxes ! i) @ [p]\<rparr>])
      else boxes)"

fun clusterLidarWithROI ::
  "BoundingBox list \<Rightarrow> LidarPoint list \<Rightarrow> real \<Rightarrow> Mat \<Rightarrow> Mat \<Rightarrow> Mat \<Rightarrow> error + BoundingBox list"
where
  "clusterLidarWithROI boxes [] shrinkFactor P_rect_xx R_rect_xx RT = Inr boxes"
| "clusterLidarWithROI boxes (p # ps) shrinkFactor P_rect_xx R_rect_xx RT =
     (case project P_rect_xx R_rect_xx RT p of
        Inl e \<Rightarrow> Inl e
      | Inr px \<Rightarrow>
          (case enclosing shrinkFactor px boxes 0 of
             Inl e \<Rightarrow> Inl e
           | Inr enclosingBoxes \<Rightarrow>
               clusterLidarWithROI (attach boxes enclosingBoxes p) ps
                 shrinkFactor P_rect_xx R_rect_xx RT))"

section \<open>clusterKptMatchesWithROI\<close>

definition roi_contains_kpt :: "Rect \<Rightarrow> KeyPoint \<Rightarrow> error + bool" where
  \<comment> \<open>\<open>boundingBox.roi.contains(kp.pt)\<close> with a \<^verbatim>\<open>Point2f\<close> argument\<close>
  "roi_contains_kpt r kp = ebind (Point2f_to_Point (pt kp)) (\<lambda>p. Inr (rect_contains r p))"

fun roi_matches :: "Rect \<Rightarrow> KeyPoint list \<Rightarrow> DMatch list \<Rightarrow> error + DMatch list" where
  \<comment> \<open>lines 135 to 140\<close>
  "roi_matches r kptsCurr [] = Inr []"
| "roi_matches r kptsCurr (match # rest) =
     (case vec_at kptsCurr (trainIdx match) of
        Inl e \<Rightarrow> Inl e
      | Inr kp \<Rightarrow>
          (case roi_contains_kpt r kp of
             Inl e \<Rightarrow> Inl e
           | Inr inside \<Rightarrow>
               (case roi_matches r kptsCurr rest of
                  Inl e \<Rightarrow> Inl e
                | Inr kptMatchesROI \<Rightarrow> Inr (if inside then match # kptMatchesROI else kptMatchesROI))))"

definition clusterKptMatchesWithROI ::
  "BoundingBox \<Rightarrow> KeyPoint list \<Rightarrow> KeyPoint list \<Rightarrow> DMatch list \<Rightarrow> error + BoundingBox"
where
  "clusterKptMatchesWithROI boundingBox kptsPrev kptsCurr matches =
     ebind (roi_matches (roi boundingBox) kptsCurr matches) (\<lambda>kptMatchesROI.
       if length kptMatchesROI > 0
       then (let avgDist = sum_list (map distance kptMatchesROI) / real (length kptMatchesROI);
                 threshold = avgDist * 0.8
             in Inr (boundingBox\<lparr>kptMatches :=
                       kptMatches boundingBox @ filter (\<lambda>itr. distance itr < threshold) kptMatchesROI\<rparr>))
       else Inr boundingBox)"

section \<open>computeTTCCamera\<close>

fun inner_loop ::
  "KeyPoint list \<Rightarrow> KeyPoint list \<Rightarrow> KeyPoint \<Rightarrow> KeyPoint \<Rightarrow> DMatch list \<Rightarrow> real list
     \<Rightarrow> error + real list"
where
  \<comment> \<open>lines 205 to 224, \<open>it2\<close> running over the given matches\<close>
  "inner_loop kptsPrev kptsCurr kpOuterCurr kpOuterPrev [] distRatios = Inr distRatios"
| "inner_loop kptsPrev kptsCurr kpOuterCurr kpOuterPrev (it2 # rest) distRatios =
     (case vec_at kptsCurr (trainIdx it2) of
        Inl e \<Rightarrow> Inl e
      | Inr kpInnerCurr \<Rightarrow>
          (case vec_at kptsPrev (queryIdx it2) of
             Inl e \<Rightarrow> Inl e
           | Inr kpInnerPrev \<Rightarrow>
               (let minDist = 100;
                    distCurr = cv_norm (pt_sub (pt kpOuterCurr) (pt kpInnerCurr));
                    distPrev = cv_norm (pt_sub (pt kpOuterPrev) (pt kpInnerPrev))
                in inner_loop kptsPrev kptsCurr kpOuterCurr kpOuterPrev rest
                     (if distPrev > dbl_epsilon \<and> distCurr \<ge> minDist
                      then distRatios @ [distCurr / distPrev] else distRatios))))"

fun outer_loop ::
  "KeyPoint list \<Rightarrow> KeyPoint list \<Rightarrow> DMatch list \<Rightarrow> DMatch list \<Rightarrow> real list \<Rightarrow> error + real list"
where
  \<comment> \<open>lines 198 to 225, \<open>it1\<close> running over the first argument list and every inner loop
      over the second\<close>
  "outer_loop kptsPrev kptsCurr [] inner distRatios = Inr distRatios"
| "outer_loop kptsPrev kptsCurr (it1 # rest) inner distRatios =
     (case vec_at kptsCurr (trainIdx it1) of
        Inl e \<Rightarrow> Inl e
      | Inr kpOuterCurr \<Rightarrow>
          (case vec_at kptsPrev (queryIdx it1) of
             Inl e \<Rightarrow> Inl e
           | Inr kpOuterPrev \<Rightarrow>
               (case inner_loop kptsPrev kptsCurr kpOuterCurr kpOuterPrev inner distRatios of
                  Inl e \<Rightarrow> Inl e
                | Inr distRatios' \<Rightarrow> outer_loop kptsPrev kptsCurr rest inner distRatios')))"

definition dist_ratios :: "KeyPoint list \<Rightarrow> KeyPoint list \<Rightarrow> DMatch list \<Rightarrow> error + real list" where
  \<comment> \<open>the outer loop runs from \<open>begin()\<close> to \<open>end() - 1\<close>, every inner loop from
      \<open>begin() + 1\<close> to \<open>end()\<close>\<close>
  "dist_ratios kptsPrev kptsCurr matches =
     outer_loop kptsPrev kptsCurr (butlast matches) (tl matches) []"

definition computeTTCCamera ::
  "(nat \<Rightarrow> real list \<Rightarrow> real list) \<Rightarrow> KeyPoint list \<Rightarrow> KeyPoint list \<Rightarrow> DMatch list \<Rightarrow> real
     \<Rightarrow> error + dbl"
where
  "computeTTCCamera nth_element kptsPrev kptsCurr matches frameRate =
     (if length matches = 0 then Inr NaN
      else
        ebind (dist_ratios kptsPrev kptsCurr matches) (\<lambda>distRatios.
          if length distRatios = 0 then Inr NaN
          else
            (let dT = dbl_div (Fin 1) (Fin frameRate);
                 medianDistRatios = median nth_element distRatios
             in Inr (dbl_div (dbl_neg dT) (Fin (1 - medianDistRatios))))))"

section \<open>computeTTCLidar\<close>

definition computeTTCLidar :: "LidarPoint list \<Rightarrow> LidarPoint list \<Rightarrow> real \<Rightarrow> dbl" where
  "computeTTCLidar lidarPointsPrev lidarPointsCurr frameRate =
     (let dT = dbl_div (Fin 1) (Fin frameRate);
          laneWidth = 4;
          prev_x = map lp_x (filter (\<lambda>it. \<bar>lp_y it\<bar> \<le> laneWidth / 2) lidarPointsPrev);
          curr_x = map lp_x (filter (\<lambda>it. \<bar>lp_y it\<bar> \<le> laneWidth / 2) lidarPointsCurr)
      in if length prev_x > 0 \<and> length curr_x > 0
         then (let avgXPrev = sum_list prev_x / real (length prev_x);
                   avgXCurr = sum_list curr_x / real (length curr_x)
               in dbl_div (dbl_mul (Fin avgXCurr) dT) (Fin (avgXPrev - avgXCurr)))
         else NaN)"

section \<open>matchBoundingBoxes\<close>

fun scan_boxes :: "BoundingBox list \<Rightarrow> Point \<Rightarrow> nat list \<Rightarrow> error + nat list" where
  \<comment> \<open>lines 300 to 307 and 309 to 316: the indices \<open>i\<close> of the given range whose box
      contains the point; \<open>boundingBoxes[i]\<close> is not checked\<close>
  "scan_boxes boxes p [] = Inr []"
| "scan_boxes boxes p (i # rest) =
     (if i < length boxes
      then (case scan_boxes boxes p rest of
              Inl e \<Rightarrow> Inl e
            | Inr ids \<Rightarrow> Inr (if rect_contains (roi (boxes ! i)) p then i # ids else ids))
      else Inl Undefined)"

definition vote :: "int list list \<Rightarrow> nat list \<Rightarrow> nat list \<Rightarrow> int list list" where
  \<comment> \<open>lines 320 to 322\<close>
  "vote point_count queryId trainId =
     foldl (\<lambda>pc a_id_prev.
         foldl (\<lambda>pc' a_id_curr.
             pc'[a_id_prev := (pc' ! a_id_prev)[a_id_curr := pc' ! a_id_prev ! a_id_curr + 1]])
           pc trainId)
       point_count queryId"

fun count_votes :: "DataFrame \<Rightarrow> DataFrame \<Rightarrow> DMatch list \<Rightarrow> int list list \<Rightarrow> error + int list list"
where
  \<comment> \<open>lines 288 to 325\<close>
  "count_votes prevFrame currFrame [] point_count = Inr point_count"
| "count_votes prevFrame currFrame (itr # rest) point_count =
     (let prev_bb_cnt = length (boundingBoxes prevFrame) in
      case ebind (vec_idx (keypoints prevFrame) (queryIdx itr))
             (\<lambda>query. cv_Point (fst (pt query)) (snd (pt query))) of
        Inl e \<Rightarrow> Inl e
      | Inr queryPt \<Rightarrow>
          (case ebind (vec_idx (keypoints currFrame) (trainIdx itr))
                  (\<lambda>train. cv_Point (fst (pt train)) (snd (pt train))) of
             Inl e \<Rightarrow> Inl e
           | Inr trainPt \<Rightarrow>
               (case scan_boxes (boundingBoxes prevFrame) queryPt [0..<prev_bb_cnt] of
                  Inl e \<Rightarrow> Inl e
                | Inr queryId \<Rightarrow>
                    (case scan_boxes (boundingBoxes currFrame) trainPt [0..<prev_bb_cnt] of
                       Inl e \<Rightarrow> Inl e
                     | Inr trainId \<Rightarrow>
                         count_votes prevFrame currFrame rest
                           (if queryId \<noteq> [] \<and> trainId \<noteq> []
                            then vote point_count queryId trainId else point_count)))))"

fun best_match :: "int list \<Rightarrow> nat list \<Rightarrow> int \<Rightarrow> nat \<Rightarrow> nat" where
  \<comment> \<open>lines 331 to 340\<close>
  "best_match row [] max_count id_max = id_max"
| "best_match row (j # js) max_count id_max =
     (if row ! j > max_count then best_match row js (row ! j) j
      else best_match row js max_count id_max)"

definition matchBoundingBoxes ::
  "DMatch list \<Rightarrow> (int \<rightharpoonup> int) \<Rightarrow> DataFrame \<Rightarrow> DataFrame \<Rightarrow> error + (int \<rightharpoonup> int)"
where
  "matchBoundingBoxes matches bbBestMatches prevFrame currFrame =
     (let prev_bb_cnt = length (boundingBoxes prevFrame);
          curr_bb_cnt = length (boundingBoxes currFrame);
          point_count = replicate prev_bb_cnt (replicate curr_bb_cnt 0)
      in ebind (count_votes prevFrame currFrame matches point_count) (\<lambda>pc.
           Inr (foldl (\<lambda>m i. m(int i \<mapsto> int (best_match (pc ! i) [0..<curr_bb_cnt] 0 0)))
                  bbBestMatches [0..<prev_bb_cnt])))"

section \<open>Notions used to state the properties\<close>

subsection \<open>Well-formed inputs\<close>

definition matches_ok :: "KeyPoint list \<Rightarrow> KeyPoint list \<Rightarrow> DMatch list \<Rightarrow> bool" where
  \<comment> \<open>every correspondence indexes into the keypoint sequence of its frame\<close>
  "matches_ok kptsPrev kptsCurr ms =
     (\<forall>m \<in> set ms. 0 \<le> queryIdx m \<and> queryIdx m < int (length kptsPrev)
                  \<and> 0 \<le> trainIdx m \<and> trainIdx m < int (length kptsCurr))"

definition curr_ok :: "KeyPoint list \<Rightarrow> DMatch list \<Rightarrow> bool" where
  \<comment> \<open>every correspondence indexes a current-frame keypoint whose coordinates fit an int\<close>
  "curr_ok kptsCurr ms =
     (\<forall>m \<in> set ms. 0 \<le> trainIdx m \<and> trainIdx m < int (length kptsCurr)
         \<and> int_range (fst (pt (kptsCurr ! nat (trainIdx m))))
         \<and> int_range (snd (pt (kptsCurr ! nat (trainIdx m)))))"

definition shrink_ok :: "real \<Rightarrow> Rect \<Rightarrow> bool" where
  \<comment> \<open>the shrink factor is a float, no float operation overflows and the four fields
      of the shrunk region fit an int\<close>
  "shrink_ok s r =
     (f32 s = s \<and> shrink_finite s (rwidth r) \<and> shrink_finite s (rheight r)
      \<and> int_range (shrunk_pos s (rx r) (rwidth r))
      \<and> int_range (shrunk_pos s (ry r) (rheight r))
      \<and> int_range (shrunk_len s (rwidth r))
      \<and> int_range (shrunk_len s (rheight r)))"

definition boxes_ok :: "real \<Rightarrow> BoundingBox list \<Rightarrow> bool" where
  "boxes_ok s boxes = (\<forall>b \<in> set boxes. shrink_ok s (roi b))"

definition calib_ok :: "Mat \<Rightarrow> Mat \<Rightarrow> Mat \<Rightarrow> bool" where
  \<comment> \<open>a projection matrix with three rows, and transforms whose dimensions chain up
      to the homogeneous 4-vector\<close>
  "calib_ok P R RT =
     (wf_Mat P \<and> wf_Mat R \<and> wf_Mat RT \<and> rows P = 3 \<and> cols P = rows R
      \<and> cols R = rows RT \<and> cols RT = 4)"

subsection \<open>Quantities named by the specification\<close>

definition in_lane :: "LidarPoint list \<Rightarrow> LidarPoint list" where
  \<comment> \<open>the range points with \<open>|y| \<le> 2\<close>\<close>
  "in_lane ps = filter (\<lambda>p. \<bar>lp_y p\<bar> \<le> 2) ps"

definition mean_x :: "LidarPoint list \<Rightarrow> real" where
  "mean_x ps = sum_list (map lp_x ps) / real (length ps)"

definition pair_ratio :: "KeyPoint list \<Rightarrow> KeyPoint list \<Rightarrow> DMatch \<Rightarrow> DMatch \<Rightarrow> real list" where
  \<comment> \<open>the distance ratio of the pair \<open>(c1, c2)\<close> when it passes the two gates, else nothing\<close>
  "pair_ratio kptsPrev kptsCurr c1 c2 =
     (let distCurr = cv_norm (pt_sub (pt (kptsCurr ! nat (trainIdx c1)))
                                     (pt (kptsCurr ! nat (trainIdx c2))));
          distPrev = cv_norm (pt_sub (pt (kptsPrev ! nat (queryIdx c1)))
                                     (pt (kptsPrev ! nat (queryIdx c2))))
      in if distPrev > dbl_epsilon \<and> distCurr \<ge> 100 then [distCurr / distPrev] else [])"

definition in_roi :: "Rect \<Rightarrow> KeyPoint list \<Rightarrow> DMatch \<Rightarrow> bool" where
  \<comment> \<open>the current-frame keypoint of the correspondence lies inside the region\<close>
  "in_roi r kptsCurr m =
     (let kp = kptsCurr ! nat (trainIdx m)
      in rect_contains r (cvRound (fst (pt kp)), cvRound (snd (pt kp))))"

definition mean_distance :: "DMatch list \<Rightarrow> real" where
  "mean_distance ms = sum_list (map distance ms) / real (length ms)"

definition shrunk :: "real \<Rightarrow> Rect \<Rightarrow> Rect" where
  \<comment> \<open>the shrunk region of lines 39 to 43: the values the source computes, every field
      truncated to an int\<close>
  "shrunk s r =
     \<lparr>rx = trunc (shrunk_pos s (rx r) (rwidth r)),
      ry = trunc (shrunk_pos s (ry r) (rheight r)),
      rwidth = trunc (shrunk_len s (rwidth r)),
      rheight = trunc (shrunk_len s (rheight r))\<rparr>"

definition enc_idx :: "real \<Rightarrow> Rect list \<Rightarrow> Point \<Rightarrow> nat list" where
  \<comment> \<open>the positions of the regions whose shrunk region contains the pixel\<close>
  "enc_idx s rs px = filter (\<lambda>j. rect_contains (shrunk s (rs ! j)) px) [0..<length rs]"

definition only_box :: "real \<Rightarrow> Rect list \<Rightarrow> Point \<Rightarrow> nat \<Rightarrow> bool" where
  \<comment> \<open>box \<open>i\<close> is the unique box whose shrunk region contains the pixel\<close>
  "only_box s rs px i =
     (i < length rs \<and> rect_contains (shrunk s (rs ! i)) px
      \<and> (\<forall>j < length rs. rect_contains (shrunk s (rs ! j)) px \<longrightarrow> j = i))"

definition append_point :: "BoundingBox \<Rightarrow> LidarPoint list \<Rightarrow> BoundingBox" where
  "append_point b ps = b\<lparr>lidarPoints := lidarPoints b @ ps\<rparr>"

definition attached ::
  "real \<Rightarrow> Rect list \<Rightarrow> (LidarPoint \<Rightarrow> Point) \<Rightarrow> LidarPoint list \<Rightarrow> nat \<Rightarrow> LidarPoint list"
where
  \<comment> \<open>the points, in order, for which box \<open>i\<close> is the unique enclosing box\<close>
  "attached s rs pix pts i = filter (\<lambda>p. only_box s rs (pix p) i) pts"

definition homog :: "Mat \<Rightarrow> Mat \<Rightarrow> Mat \<Rightarrow> LidarPoint \<Rightarrow> real list" where
  \<comment> \<open>the homogeneous image vector: the extrinsic transform, then the rectification,
      then the projection, applied to \<open>[x, y, z, 1]\<close>\<close>
  "homog P R RT p = mat_vec P (mat_vec R (mat_vec RT [lp_x p, lp_y p, lp_z p, 1]))"

definition point_ok :: "Mat \<Rightarrow> Mat \<Rightarrow> Mat \<Rightarrow> LidarPoint \<Rightarrow> bool" where
  \<comment> \<open>the homogeneous scale is not zero and both quotients fit an int\<close>
  "point_ok P R RT p =
     (homog P R RT p ! 2 \<noteq> 0
      \<and> int_range (homog P R RT p ! 0 / homog P R RT p ! 2)
      \<and> int_range (homog P R RT p ! 1 / homog P R RT p ! 2))"

definition points_ok :: "Mat \<Rightarrow> Mat \<Rightarrow> Mat \<Rightarrow> LidarPoint list \<Rightarrow> bool" where
  "points_ok P R RT pts = (\<forall>p \<in> set pts. point_ok P R RT p)"

definition pixel :: "Mat \<Rightarrow> Mat \<Rightarrow> Mat \<Rightarrow> LidarPoint \<Rightarrow> Point" where
  \<comment> \<open>the projected pixel: \<open>(u / w, v / w)\<close>, each quotient truncated to an int\<close>
  "pixel P R RT p =
     (trunc (homog P R RT p ! 0 / homog P R RT p ! 2),
      trunc (homog P R RT p ! 1 / homog P R RT p ! 2))"

definition sorted_median :: "real list \<Rightarrow> real" where
  \<comment> \<open>the statistical median: the middle element of the ascending sort, or the mean of
      the two middle elements\<close>
  "sorted_median xs =
     (if xs = [] then 0
      else if odd (length xs) then sort xs ! (length xs div 2)
      else (sort xs ! (length xs div 2 - 1) + sort xs ! (length xs div 2)) / 2)"

definition col4 :: "LidarPoint \<Rightarrow> Mat" where
  \<comment> \<open>the column \<open>X\<close> of lines 24 to 27\<close>
  "col4 p = \<lparr>rows = 4, cols = 1, dat = [lp_x p, lp_y p, lp_z p, 1]\<rparr>"

definition kept :: "Rect \<Rightarrow> KeyPoint list \<Rightarrow> DMatch list \<Rightarrow> DMatch list" where
  \<comment> \<open>the correspondences inside the region that pass the outlier threshold\<close>
  "kept r kptsCurr ms =
     (let sel = filter (in_roi r kptsCurr) ms
      in filter (\<lambda>m. distance m < 0.8 * mean_distance sel) sel)"

subsection \<open>Sample data\<close>

definition lp :: "real \<Rightarrow> real \<Rightarrow> LidarPoint" where
  "lp a b = \<lparr>lp_x = a, lp_y = b, lp_z = 0, lp_r = 0\<rparr>"

definition kpt :: "real \<Rightarrow> real \<Rightarrow> KeyPoint" where
  "kpt a b = \<lparr>pt = (a, b)\<rparr>"

definition dmd :: "int \<Rightarrow> int \<Rightarrow> real \<Rightarrow> DMatch" where
  "dmd q t d = \<lparr>queryIdx = q, trainIdx = t, imgIdx = 0, distance = d\<rparr>"

definition box :: "int \<Rightarrow> int \<Rightarrow> int \<Rightarrow> int \<Rightarrow> BoundingBox" where
  "box a b w h = \<lparr>boxID = 0, roi = \<lparr>rx = a, ry = b, rwidth = w, rheight = h\<rparr>,
                   lidarPoints = [], kptMatches = []\<rparr>"

definition prevFrame1 :: DataFrame where
  "prevFrame1 = \<lparr>keypoints = [kpt 10 10], boundingBoxes = [box 0 0 50 50]\<rparr>"

definition currFrame2 :: DataFrame where
  "currFrame2 = \<lparr>keypoints = [kpt 110 10], boundingBoxes = [box 0 0 50 50, box 100 0 50 50]\<rparr>"

definition lp3 :: "real \<Rightarrow> real \<Rightarrow> real \<Rightarrow> LidarPoint" where
  "lp3 a b c = \<lparr>lp_x = a, lp_y = b, lp_z = c, lp_r = 0\<rparr>"

definition I4 :: Mat where
  "I4 = \<lparr>rows = 4, cols = 4, dat = [1, 0, 0, 0,  0, 1, 0, 0,  0, 0, 1, 0,  0, 0, 0, 1]\<rparr>"

definition P0 :: Mat where
  "P0 = \<lparr>rows = 3, cols = 4, dat = [1, 0, 0, 0,  0, 1, 0, 0,  0, 0, 1, 0]\<rparr>"

definition P1 :: Mat where
  \<comment> \<open>focal length 2, principal point (1, 1)\<close>
  "P1 = \<lparr>rows = 3, cols = 4, dat = [2, 0, 1, 0,  0, 2, 1, 0,  0, 0, 1, 0]\<rparr>"

definition RT1 :: Mat where
  \<comment> \<open>a translation by 1 along x\<close>
  "RT1 = \<lparr>rows = 4, cols = 4, dat = [1, 0, 0, 1,  0, 1, 0, 0,  0, 0, 1, 0,  0, 0, 0, 1]\<rparr>"

definition tiny :: real where
  "tiny = 1 / 2 ^ 60"

definition s01 :: real where
  \<comment> \<open>the float \<^verbatim>\<open>0.1f\<close>\<close>
  "s01 = 13421773 / 134217728"

definition pts4 :: "LidarPoint list" where
  "pts4 = [lp3 8 2 1, lp3 6 6 1, lp3 50 50 1, lp3 12 12 1]"

definition boxes2 :: "BoundingBox list" where
  "boxes2 = [box 0 0 10 10, box 4 4 10 10]"

definition kpts3 :: "KeyPoint list" where
  "kpts3 = [kpt 10 10, kpt 20 20, kpt 500 20]"

definition matches3 :: "DMatch list" where
  "matches3 = [dmd 0 0 1, dmd 1 1 4, dmd 2 2 1]"

definition box_with :: "DMatch list \<Rightarrow> BoundingBox" where
  \<comment> \<open>a box that already holds correspondences\<close>
  "box_with ms = \<lparr>boxID = 0, roi = \<lparr>rx = 0, ry = 0, rwidth = 100, rheight = 100\<rparr>,
                   lidarPoints = [], kptMatches = ms\<rparr>"

section \<open>Basic facts\<close>

lemma trunc_of_int [simp]: "trunc (of_int n) = n"
  by (simp add: trunc_def)

lemma trunc_numeral [simp]: "trunc (numeral n) = numeral n"
  using trunc_of_int [of "numeral n"] by simp

lemma trunc_0 [simp]: "trunc 0 = 0"
  by (simp add: trunc_def)

lemma upt_0_2: "[0..<2] = [0, 1]"
  by (simp add: upt_rec)

lemma upt_0_3: "[0..<3] = [0, 1, 2]"
  by (simp add: upt_rec)

lemma upt_0_4: "[0..<4] = [0, 1, 2, 3]"
  by (simp add: upt_rec)

lemma cvRound_int [simp]: "cvRound (of_int n) = n"
  by (simp add: cvRound_def)

lemma cvRound_num [simp]: "cvRound (numeral n) = numeral n"
  using cvRound_int [of "numeral n"] by simp

lemma cvRound_0 [simp]: "cvRound 0 = 0"
  using cvRound_int [of 0] by simp

lemma bit_length_0 [simp]: "bit_length 0 = 0"
  by (simp add: bit_length.simps)

lemma bit_length_1 [simp]: "bit_length (Suc 0) = 1"
  by (simp add: bit_length.simps)

lemma bit_length_numeral [simp]:
  "bit_length (numeral k) = Suc (bit_length (numeral k div 2))"
  by (subst bit_length.simps) simp

text \<open>
  The rounding model: \<open>ilog2\<close> is the binary exponent, and a rounded value lies within
  half a unit in the last place of the exact one.
\<close>

lemma bit_length_bounds:
  "0 < n \<Longrightarrow> 2 ^ (bit_length n - 1) \<le> n \<and> n < 2 ^ bit_length n"
proof (induction n rule: bit_length.induct)
  case (1 n)
  show ?case
  proof (cases "n div 2 = 0")
    case True
    with "1.prems" have "n = 1" by (simp add: div_eq_0_iff)
    then show ?thesis by simp
  next
    case False
    then have pos: "0 < n div 2" by simp
    from "1.prems" have n0: "n \<noteq> 0" by simp
    from "1.IH" [OF n0 pos] have lo: "2 ^ (bit_length (n div 2) - 1) \<le> n div 2"
      and hi: "n div 2 < 2 ^ bit_length (n div 2)" by simp_all
    have bl: "bit_length n = Suc (bit_length (n div 2))"
      using n0 by (subst bit_length.simps) simp
    from pos have bpos: "0 < bit_length (n div 2)"
      by (subst bit_length.simps) simp
    then have e: "2 ^ bit_length (n div 2) = 2 * 2 ^ (bit_length (n div 2) - 1)"
      by (cases "bit_length (n div 2)") simp_all
    have "2 ^ (bit_length n - 1) = (2::nat) * 2 ^ (bit_length (n div 2) - 1)"
      using bl e by simp
    also have "\<dots> \<le> 2 * (n div 2)" using lo by simp
    also have "\<dots> \<le> n" by simp
    finally have a: "2 ^ (bit_length n - 1) \<le> n" .
    have "n < 2 * (n div 2) + 2" by presburger
    also have "\<dots> \<le> 2 * 2 ^ bit_length (n div 2)" using hi by simp
    finally have b: "n < 2 ^ bit_length n" using bl by simp
    from a b show ?thesis ..
  qed
qed

lemma pow2_nat: "pow2 (int k) = 2 ^ k"
  by (simp add: pow2_def)

lemma pow2_neg: "pow2 (- int k) = 1 / 2 ^ k"
  by (cases "k = 0") (simp_all add: pow2_def)

lemma ilog2_bounds:
  assumes "0 < x"
  shows "pow2 (ilog2 x) \<le> x \<and> x < pow2 (ilog2 x + 1)"
proof (cases "1 \<le> x")
  case True
  define n where "n = nat \<lfloor>x\<rfloor>"
  from True have n1: "0 < n" unfolding n_def by linarith
  from True have n2: "real n \<le> x" unfolding n_def by linarith
  from True have n3: "x < real n + 1" unfolding n_def by linarith
  note n = n1 n2 n3
  from bit_length_bounds [OF n(1)] have lo: "2 ^ (bit_length n - 1) \<le> n" and hi: "n < 2 ^ bit_length n"
    by simp_all
  from n(1) have bpos: "0 < bit_length n" by (subst bit_length.simps) simp
  have il: "ilog2 x = int (bit_length n - 1)"
    using True bpos by (simp add: ilog2_def n_def)
  have il1: "ilog2 x + 1 = int (bit_length n)"
    using il bpos by simp
  have "(2::real) ^ (bit_length n - 1) \<le> real n"
    using of_nat_mono [OF lo, where ?'a = real] by simp
  then have a: "pow2 (ilog2 x) \<le> x" using n(2) unfolding il pow2_nat by linarith
  from hi have "Suc n \<le> 2 ^ bit_length n" by simp
  then have "real n + 1 \<le> (2::real) ^ bit_length n"
    using of_nat_mono [of "Suc n" "2 ^ bit_length n", where ?'a = real] by simp
  then have b: "x < pow2 (ilog2 x + 1)" using n(3) unfolding il1 pow2_nat by linarith
  from a b show ?thesis ..
next
  case False
  define y where "y = 1 / x"
  define m where "m = nat (\<lceil>y\<rceil> - 1)"
  from False assms have y1: "1 < y" by (simp add: y_def)
  then have c2: "2 \<le> \<lceil>y\<rceil>" by linarith
  from c2 have m1: "0 < m" unfolding m_def by linarith
  from c2 have m2: "real m < y" unfolding m_def by linarith
  from c2 have m3: "y \<le> real m + 1" unfolding m_def by linarith
  note m = m1 m2 m3
  from bit_length_bounds [OF m(1)] have lo: "2 ^ (bit_length m - 1) \<le> m" and hi: "m < 2 ^ bit_length m"
    by simp_all
  from m(1) have bpos: "0 < bit_length m" by (subst bit_length.simps) simp
  have il: "ilog2 x = - int (bit_length m)"
    using False by (simp add: ilog2_def m_def y_def)
  have il1: "ilog2 x + 1 = - int (bit_length m - 1)"
    using il bpos by simp
  from hi have "Suc m \<le> 2 ^ bit_length m" by simp
  then have "real m + 1 \<le> (2::real) ^ bit_length m"
    using of_nat_mono [of "Suc m" "2 ^ bit_length m", where ?'a = real] by simp
  with m(3) have "y \<le> 2 ^ bit_length m" by linarith
  then have "1 / x \<le> 2 ^ bit_length m" by (simp add: y_def)
  then have a: "pow2 (ilog2 x) \<le> x" unfolding il pow2_neg
    using assms by (simp add: field_simps)
  have "(2::real) ^ (bit_length m - 1) \<le> real m"
    using of_nat_mono [OF lo, where ?'a = real] by simp
  with m(2) have "2 ^ (bit_length m - 1) < y" by linarith
  then have "2 ^ (bit_length m - 1) < 1 / x" by (simp add: y_def)
  then have b: "x < pow2 (ilog2 x + 1)" unfolding il1 pow2_neg
    using assms by (simp add: field_simps)
  from a b show ?thesis ..
qed

lemma cvRound_nearest: "\<bar>of_int (cvRound y) - y\<bar> \<le> 1 / 2"
proof -
  have "of_int \<lfloor>y\<rfloor> \<le> y" "y < of_int \<lfloor>y\<rfloor> + 1" by linarith+
  then show ?thesis
    by (auto simp: cvRound_def Let_def)
qed

lemma pow2_pos: "0 < pow2 k"
  by (simp add: pow2_def)

lemma fl_round_nearest:
  "\<bar>fl_round p emin x - x\<bar> \<le> pow2 (max (ilog2 \<bar>x\<bar>) emin - int p + 1) / 2"
proof (cases "x = 0")
  case True
  then show ?thesis using pow2_pos [of "max (ilog2 \<bar>x\<bar>) emin - int p + 1"]
    by (simp add: fl_round_def)
next
  case False
  define u where "u = pow2 (max (ilog2 \<bar>x\<bar>) emin - int p + 1)"
  have u: "0 < u" unfolding u_def by (rule pow2_pos)
  have "of_int (cvRound (x / u)) * u - x = (of_int (cvRound (x / u)) - x / u) * u"
    using u by (simp add: left_diff_distrib)
  then have "\<bar>of_int (cvRound (x / u)) * u - x\<bar> = \<bar>of_int (cvRound (x / u)) - x / u\<bar> * u"
    using u by (simp add: abs_mult)
  also have "\<dots> \<le> 1 / 2 * u"
    using cvRound_nearest [of "x / u"] u by (intro mult_right_mono) simp_all
  finally show ?thesis using False by (simp add: fl_round_def Let_def u_def)
qed

text \<open>The definitions a concrete float computation unfolds.\<close>

lemmas fl_eval =
  f32_def f64_def fl_round_def ilog2_def pow2_def cvRound_def f32_finite_def f32_max_def
  shrunk_pos_def shrunk_len_def shrink_finite_def Let_def

text \<open>
  The float \<^verbatim>\<open>0.1f\<close> and an extent of 10: \<open>1 - 0.1f\<close> rounds to
  \<open>15099494 / 2 ^ 24\<close> and ten times that rounds to 9, so the shrunk extent is 9 (in
  exact arithmetic the product is below 9 and the extent would be 8). Likewise \<^verbatim>\<open>0.2f\<close>
  shrinks an extent of 5 to 4.
\<close>

lemma s01_float: "f32 s01 = s01"
  by (simp add: s01_def fl_eval)

lemma shrunk_len_s01: "shrunk_len s01 10 = 9"
  by (simp add: s01_def fl_eval)

lemma shrunk_len_exact_differs: "trunc (10 * (1 - s01)) = 8"
  by (simp add: s01_def trunc_def)

lemma shrunk_len_s02: "shrunk_len (13421773 / 67108864) 5 = 4"
  by (simp add: fl_eval)

section \<open>Properties of median\<close>

lemma sort_cong_mset: "mset (ys :: real list) = mset xs \<Longrightarrow> sort ys = sort xs"
  by (rule properties_for_sort) simp_all

lemma contract_length:
  assumes "nth_element_contract ne" "k < length xs"
  shows "length (ne k xs) = length xs"
proof -
  from assms have "mset (ne k xs) = mset xs"
    by (simp add: nth_element_contract_def)
  then show ?thesis by (rule mset_eq_length)
qed

text \<open>
  C7. For every non-empty sequence, median returns the element at index n/2 of the
  ascending sort when the length n is odd, and the average of the elements at indices
  n/2-1 and n/2 of the ascending sort when n is even; for the empty sequence it returns 0.
  This holds for every implementation of \<^verbatim>\<open>nth_element\<close> that meets the contract.
\<close>

theorem median_is_sorted_middle:
  assumes "nth_element_contract ne"
  shows "median ne xs =
     (if xs = [] then 0
      else if odd (length xs) then sort xs ! (length xs div 2)
      else (sort xs ! (length xs div 2 - 1) + sort xs ! (length xs div 2)) / 2)"
proof (cases "xs = []")
  case True
  then show ?thesis by (simp add: median_def)
next
  case False
  define n where "n = length xs div 2"
  from False have n_lt: "n < length xs" by (simp add: n_def)
  have first: "ne n xs ! n = sort xs ! n" and perm: "mset (ne n xs) = mset xs"
    using assms n_lt by (simp_all add: nth_element_contract_def)
  show ?thesis
  proof (cases "odd (length xs)")
    case True
    then have "length xs mod 2 \<noteq> 0" by presburger
    with False first True show ?thesis
      by (simp add: median_def Let_def n_def)
  next
    case even: False
    then have m0: "length xs mod 2 = 0" by presburger
    have len1: "length (ne n xs) = length xs"
      using assms n_lt by (rule contract_length)
    have "n - 1 < length (ne n xs)" using n_lt len1 by simp
    with assms have "ne (n - 1) (ne n xs) ! (n - 1) = sort (ne n xs) ! (n - 1)"
      by (simp add: nth_element_contract_def)
    also have "sort (ne n xs) = sort xs" using perm by (rule sort_cong_mset)
    finally have second: "ne (n - 1) (ne n xs) ! (n - 1) = sort xs ! (n - 1)" .
    from False m0 even first second show ?thesis
      by (simp add: median_def Let_def n_def add.commute)
  qed
qed

theorem median_is_sorted_middle_witness:
  "nth_element_contract (\<lambda>k. sort) \<and> median (\<lambda>k. sort) [3, 1, 2] = 2
     \<and> median (\<lambda>k. sort) [4, 1, 3, 2] = 5 / 2 \<and> median (\<lambda>k. sort) [] = 0"
proof -
  have c: "nth_element_contract (\<lambda>k. sort)"
    by (simp add: nth_element_contract_def)
  have s3: "sort [3, 1, 2 :: real] = [1, 2, 3]" by simp
  have s4: "sort [4, 1, 3, 2 :: real] = [1, 2, 3, 4]" by simp
  show ?thesis
    using c median_is_sorted_middle [OF c, of "[3, 1, 2]"]
      median_is_sorted_middle [OF c, of "[4, 1, 3, 2]"]
      median_is_sorted_middle [OF c, of "[]"]
    by (simp add: s3 s4)
qed

section \<open>Properties of computeTTCLidar\<close>

lemma ttc_lidar_general:
  "computeTTCLidar prv cur fr =
     (if in_lane prv = [] \<or> in_lane cur = [] then NaN
      else dbl_div (dbl_mul (Fin (mean_x (in_lane cur))) (dbl_div (Fin 1) (Fin fr)))
             (Fin (mean_x (in_lane prv) - mean_x (in_lane cur))))"
  by (auto simp: computeTTCLidar_def in_lane_def mean_x_def Let_def)

text \<open>
  C6 (amended). computeTTCLidar keeps the range points of each frame with \<open>|y| \<le> 2\<close>. If
  either kept set is empty the result is not-a-number. Otherwise the result is
  \<open>mean_curr * dT / (mean_prev - mean_curr)\<close> with \<open>dT = 1 / frameRate\<close>, the two means
  being the arithmetic means of x over the kept sets: as a double division in general, and
  as that real number when the frame rate is not zero and the means differ. In particular
  means 10 and 9 at frame rate 10 give 0.9.
\<close>

theorem computeTTCLidar_formula:
  "(in_lane prv = [] \<or> in_lane cur = [] \<longrightarrow> computeTTCLidar prv cur fr = NaN)
   \<and> (in_lane prv \<noteq> [] \<and> in_lane cur \<noteq> [] \<longrightarrow>
        computeTTCLidar prv cur fr =
          dbl_div (dbl_mul (Fin (mean_x (in_lane cur))) (dbl_div (Fin 1) (Fin fr)))
            (Fin (mean_x (in_lane prv) - mean_x (in_lane cur))))
   \<and> (in_lane prv \<noteq> [] \<and> in_lane cur \<noteq> [] \<and> fr \<noteq> 0
        \<and> mean_x (in_lane prv) \<noteq> mean_x (in_lane cur) \<longrightarrow>
        computeTTCLidar prv cur fr =
          Fin (mean_x (in_lane cur) * (1 / fr) / (mean_x (in_lane prv) - mean_x (in_lane cur))))
   \<and> (in_lane prv \<noteq> [] \<and> in_lane cur \<noteq> [] \<and> mean_x (in_lane prv) = 10
        \<and> mean_x (in_lane cur) = 9 \<and> fr = 10 \<longrightarrow>
        computeTTCLidar prv cur fr = Fin (9 / 10))"
  by (simp add: ttc_lidar_general)

text \<open>
  The example of C6 as the specification states it: with means 10 and 9 and frame rate 10
  the result is not 9.
\<close>

theorem computeTTCLidar_example_counterexample:
  "mean_x (in_lane [lp 10 0]) = 10 \<and> mean_x (in_lane [lp 9 0]) = 9
   \<and> computeTTCLidar [lp 10 0] [lp 9 0] 10 \<noteq> Fin 9"
  by (simp add: ttc_lidar_general in_lane_def mean_x_def lp_def)

theorem computeTTCLidar_formula_witness:
  "in_lane [lp 10 0, lp 50 3] \<noteq> [] \<and> in_lane [lp 9 1] \<noteq> [] \<and> in_lane [lp 5 7] = []
   \<and> mean_x (in_lane [lp 10 0, lp 50 3]) = 10 \<and> mean_x (in_lane [lp 9 1]) = 9
   \<and> computeTTCLidar [lp 10 0, lp 50 3] [lp 9 1] 10 = Fin (9 / 10)
   \<and> computeTTCLidar [lp 5 7] [lp 9 1] 10 = NaN"
  using computeTTCLidar_formula [of "[lp 10 0, lp 50 3]" "[lp 9 1]" 10]
    computeTTCLidar_formula [of "[lp 5 7]" "[lp 9 1]" 10]
  by (simp add: in_lane_def mean_x_def lp_def)

section \<open>Properties of computeTTCCamera\<close>

lemma inner_loop_eq:
  assumes "matches_ok kp kc ms"
  shows "inner_loop kp kc (kc ! nat (trainIdx c1)) (kp ! nat (queryIdx c1)) ms acc =
           Inr (acc @ concat (map (pair_ratio kp kc c1) ms))"
  using assms
proof (induction ms arbitrary: acc)
  case Nil
  then show ?case by simp
next
  case (Cons m ms)
  then have "matches_ok kp kc ms" by (simp add: matches_ok_def)
  with Cons show ?case
    by (simp add: matches_ok_def vec_at_def pair_ratio_def Let_def)
qed

lemma outer_loop_eq:
  assumes "matches_ok kp kc os" "matches_ok kp kc ms"
  shows "outer_loop kp kc os ms acc =
           Inr (acc @ concat (map (\<lambda>c1. concat (map (pair_ratio kp kc c1) ms)) os))"
  using assms
proof (induction os arbitrary: acc)
  case Nil
  then show ?case by simp
next
  case (Cons c1 os)
  then have "matches_ok kp kc os" by (simp add: matches_ok_def)
  with Cons show ?case
    by (simp add: matches_ok_def vec_at_def inner_loop_eq)
qed

lemma matches_ok_butlast: "matches_ok kp kc ms \<Longrightarrow> matches_ok kp kc (butlast ms)"
  by (auto simp: matches_ok_def dest: in_set_butlastD)

lemma matches_ok_tl: "matches_ok kp kc ms \<Longrightarrow> matches_ok kp kc (tl ms)"
  by (cases ms) (auto simp: matches_ok_def)

text \<open>
  The ratios recorded by the two loops, for well-formed input: the outer correspondence runs
  over all but the last one, the inner correspondence over all but the first one.
\<close>

lemma dist_ratios_eq:
  assumes "matches_ok kp kc ms"
  shows "dist_ratios kp kc ms =
     Inr (concat (map (\<lambda>c1. concat (map (pair_ratio kp kc c1) (tl ms))) (butlast ms)))"
  using outer_loop_eq [OF matches_ok_butlast [OF assms] matches_ok_tl [OF assms]]
  by (simp add: dist_ratios_def)

lemma cv_norm_axis: "cv_norm (pt_sub (a, 0) (b, 0)) = \<bar>a - b\<bar>"
  by (simp add: cv_norm_def pt_sub_def)

lemma dist_ratios_sample:
  "dist_ratios [kpt 0 0, kpt 100 0, kpt 300 0, kpt 600 0]
               [kpt 0 0, kpt 200 0, kpt 500 0, kpt 1200 0]
               [dmd 0 0 1, dmd 1 1 1, dmd 2 2 1, dmd 3 3 1]
     = Inr [2, 5 / 3, 2, 3 / 2, 2, 3 / 2, 7 / 3]"
  by (simp add: dist_ratios_def vec_at_def kpt_def dmd_def cv_norm_axis dbl_epsilon_def)

text \<open>
  C4. The claim: one ratio per unordered pair of distinct correspondences that passes the
  gates. The code at four correspondences on a line (previous x = 0, 100, 300, 600, current
  x = 0, 200, 500, 1200): the six unordered pairs all pass the gates, and seven ratios are
  recorded, the ratio 3/2 of the pair of the second and third correspondence twice (once
  as (second, third), once as (third, second)).
\<close>

theorem dist_ratios_middle_pair_twice:
  "dist_ratios [kpt 0 0, kpt 100 0, kpt 300 0, kpt 600 0]
               [kpt 0 0, kpt 200 0, kpt 500 0, kpt 1200 0]
               [dmd 0 0 1, dmd 1 1 1, dmd 2 2 1, dmd 3 3 1]
     = Inr [2, 5 / 3, 2, 3 / 2, 2, 3 / 2, 7 / 3]
   \<and> pair_ratio [kpt 0 0, kpt 100 0, kpt 300 0, kpt 600 0]
        [kpt 0 0, kpt 200 0, kpt 500 0, kpt 1200 0] (dmd 1 1 1) (dmd 2 2 1) = [3 / 2]
   \<and> pair_ratio [kpt 0 0, kpt 100 0, kpt 300 0, kpt 600 0]
        [kpt 0 0, kpt 200 0, kpt 500 0, kpt 1200 0] (dmd 2 2 1) (dmd 1 1 1) = [3 / 2]"
  by (simp add: dist_ratios_sample)
     (simp add: pair_ratio_def kpt_def dmd_def cv_norm_axis dbl_epsilon_def)

lemma median_sorted_median:
  assumes "nth_element_contract ne"
  shows "median ne xs = sorted_median xs"
proof (cases "xs = []")
  case True
  then show ?thesis by (simp add: median_def sorted_median_def)
next
  case False
  define n where "n = length xs div 2"
  from False have n_lt: "n < length xs" by (simp add: n_def)
  from assms n_lt have first: "ne n xs ! n = sort xs ! n"
    and perm: "mset (ne n xs) = mset xs"
    by (simp_all add: nth_element_contract_def)
  show ?thesis
  proof (cases "even (length xs)")
    case False
    then have "length xs mod 2 \<noteq> 0" by presburger
    with \<open>xs \<noteq> []\<close> first False show ?thesis
      by (simp add: median_def sorted_median_def Let_def n_def)
  next
    case True
    then have m0: "length xs mod 2 = 0" by presburger
    from perm have "length (ne n xs) = length xs" by (rule mset_eq_length)
    with n_lt have "n - 1 < length (ne n xs)" by simp
    with assms have "ne (n - 1) (ne n xs) ! (n - 1) = sort (ne n xs) ! (n - 1)"
      by (simp add: nth_element_contract_def)
    also from perm have "sort (ne n xs) = sort xs"
      by (intro properties_for_sort) simp_all
    finally have second: "ne (n - 1) (ne n xs) ! (n - 1) = sort xs ! (n - 1)" .
    from \<open>xs \<noteq> []\<close> m0 True first second show ?thesis
      by (simp add: median_def sorted_median_def Let_def n_def add.commute)
  qed
qed

text \<open>
  C5. For correspondences that index into the keypoint sequences and an
  \<^verbatim>\<open>nth_element\<close> that meets its contract, computeTTCCamera returns, and its result is
  not-a-number exactly when the correspondence set is empty or no distance ratio was
  recorded; otherwise it is \<open>- dT / (1 - m)\<close> with \<open>m\<close> the median of the recorded ratios
  (the middle element of their ascending sort, or the mean of the two middle elements) and
  \<open>dT = 1 / frameRate\<close>: as a double division in general (an infinity when \<open>m = 1\<close>),
  and as that real number when the frame rate is not zero and \<open>m \<noteq> 1\<close>.
\<close>

theorem computeTTCCamera_result:
  assumes "matches_ok kp kc ms" and "nth_element_contract ne"
  shows "\<exists>ratios. dist_ratios kp kc ms = Inr ratios
     \<and> (computeTTCCamera ne kp kc ms fr = Inr NaN \<longleftrightarrow> ms = [] \<or> ratios = [])
     \<and> (ms \<noteq> [] \<and> ratios \<noteq> [] \<longrightarrow>
          computeTTCCamera ne kp kc ms fr =
            Inr (dbl_div (dbl_neg (dbl_div (Fin 1) (Fin fr))) (Fin (1 - sorted_median ratios))))
     \<and> (ms \<noteq> [] \<and> ratios \<noteq> [] \<and> fr \<noteq> 0 \<and> sorted_median ratios \<noteq> 1 \<longrightarrow>
          computeTTCCamera ne kp kc ms fr = Inr (Fin (- (1 / fr) / (1 - sorted_median ratios))))"
proof -
  from dist_ratios_eq [OF assms(1)] obtain ratios where r: "dist_ratios kp kc ms = Inr ratios"
    by blast
  have m: "median ne ratios = sorted_median ratios"
    using assms(2) by (rule median_sorted_median)
  show ?thesis
    by (rule exI [of _ ratios]) (simp add: r m computeTTCCamera_def Let_def)
qed

text \<open>
  The sample of four correspondences records the ratios 2, 5/3, 2, 3/2, 2, 3/2, 7/3, whose
  median is 2 while the element in the middle position of the unsorted list is 3/2; an
  \<^verbatim>\<open>nth_element\<close> moving nothing would give a time of 1/5 instead of 1/10.
\<close>

theorem computeTTCCamera_result_witness:
  "matches_ok [kpt 0 0, kpt 100 0, kpt 300 0, kpt 600 0]
      [kpt 0 0, kpt 200 0, kpt 500 0, kpt 1200 0]
      [dmd 0 0 1, dmd 1 1 1, dmd 2 2 1, dmd 3 3 1]
   \<and> nth_element_contract (\<lambda>k. sort)
   \<and> sorted_median [2, 5 / 3, 2, 3 / 2, 2, 3 / 2, 7 / 3] = 2
   \<and> computeTTCCamera (\<lambda>k. sort) [kpt 0 0, kpt 100 0, kpt 300 0, kpt 600 0]
        [kpt 0 0, kpt 200 0, kpt 500 0, kpt 1200 0]
        [dmd 0 0 1, dmd 1 1 1, dmd 2 2 1, dmd 3 3 1] 10 = Inr (Fin (1 / 10))"
proof -
  let ?kp = "[kpt 0 0, kpt 100 0, kpt 300 0, kpt 600 0]"
  let ?kc = "[kpt 0 0, kpt 200 0, kpt 500 0, kpt 1200 0]"
  let ?ms = "[dmd 0 0 1, dmd 1 1 1, dmd 2 2 1, dmd 3 3 1]"
  have ok: "matches_ok ?kp ?kc ?ms"
    by (simp add: matches_ok_def dmd_def)
  have c: "nth_element_contract (\<lambda>k. sort)"
    by (simp add: nth_element_contract_def)
  have srt: "sort [2, 5 / 3, 2, 3 / 2, 2, 3 / 2, 7 / 3 :: real]
               = [3 / 2, 3 / 2, 5 / 3, 2, 2, 2, 7 / 3]"
    by simp
  have med: "sorted_median [2, 5 / 3, 2, 3 / 2, 2, 3 / 2, 7 / 3] = 2"
    unfolding sorted_median_def srt by simp
  from computeTTCCamera_result [OF ok c, of 10] ok c med show ?thesis
    by (simp add: dist_ratios_sample)
qed

section \<open>Properties of clusterKptMatchesWithROI\<close>

lemma roi_matches_eq:
  "curr_ok kc ms \<Longrightarrow> roi_matches r kc ms = Inr (filter (in_roi r kc) ms)"
  by (induction ms)
     (simp_all add: curr_ok_def vec_at_def roi_contains_kpt_def Point2f_to_Point_def
        saturate_cast_int_def in_roi_def int_range_def Let_def)

lemma mean_const:
  assumes "xs \<noteq> []" "\<forall>m \<in> set xs. distance m = d"
  shows "mean_distance xs = d"
proof -
  from assms(2) have "map distance xs = replicate (length xs) d"
    by (induction xs) simp_all
  then have "sum_list (map distance xs) = real (length xs) * d"
    by (simp add: sum_list_replicate)
  with assms(1) show ?thesis by (simp add: mean_distance_def)
qed

lemma cluster_kpt_eq:
  assumes "curr_ok kc ms"
  shows "clusterKptMatchesWithROI b kp kc ms =
     (let sel = filter (in_roi (roi b) kc) ms in
      if sel = [] then Inr b
      else Inr (b\<lparr>kptMatches := kptMatches b @
                   filter (\<lambda>m. distance m < 0.8 * mean_distance sel) sel\<rparr>))"
proof -
  let ?sel = "filter (in_roi (roi b) kc) ms"
  have r: "roi_matches (roi b) kc ms = Inr ?sel"
    using assms by (rule roi_matches_eq)
  have t: "sum_list (map distance ?sel) / real (length ?sel) * 0.8 = 0.8 * mean_distance ?sel"
    by (simp add: mean_distance_def)
  show ?thesis
    unfolding clusterKptMatchesWithROI_def r ebind.simps Let_def t
    by (cases "?sel = []") simp_all
qed

text \<open>
  C8 (amended). For correspondences that index current-frame keypoints with coordinates in
  the int range, clusterKptMatchesWithROI first keeps the correspondences whose current-frame
  keypoint lies inside the box's unshrunk region. If none is kept, the box is returned as it
  was. Otherwise exactly the kept correspondences whose distance is strictly less than 0.8
  times the mean distance of the kept ones are appended to the box's earlier kptMatches. When
  all kept correspondences have one and the same distance (a dissimilarity score, so not
  negative), none of them is retained and the box is returned as it was.
\<close>

theorem clusterKptMatchesWithROI_outliers:
  assumes "curr_ok kc ms"
  shows "(filter (in_roi (roi b) kc) ms = [] \<longrightarrow> clusterKptMatchesWithROI b kp kc ms = Inr b)
   \<and> (filter (in_roi (roi b) kc) ms \<noteq> [] \<longrightarrow>
        clusterKptMatchesWithROI b kp kc ms =
          Inr (b\<lparr>kptMatches := kptMatches b @
                 filter (\<lambda>m. distance m < 0.8 * mean_distance (filter (in_roi (roi b) kc) ms))
                   (filter (in_roi (roi b) kc) ms)\<rparr>))
   \<and> (filter (in_roi (roi b) kc) ms \<noteq> [] \<and> 0 \<le> d
        \<and> (\<forall>m \<in> set (filter (in_roi (roi b) kc) ms). distance m = d) \<longrightarrow>
        clusterKptMatchesWithROI b kp kc ms = Inr b)"
proof -
  let ?sel = "filter (in_roi (roi b) kc) ms"
  have "clusterKptMatchesWithROI b kp kc ms = Inr b"
    if ne: "?sel \<noteq> []" and d: "0 \<le> d" and same: "\<forall>m \<in> set ?sel. distance m = d"
  proof -
    have "mean_distance ?sel = d" using ne same by (rule mean_const)
    moreover have "filter (\<lambda>m. distance m < 0.8 * d) ?sel = []"
      using same d by (auto simp: filter_empty_conv)
    ultimately show ?thesis using ne by (simp add: cluster_kpt_eq [OF assms] Let_def)
  qed
  then show ?thesis by (simp add: cluster_kpt_eq [OF assms] Let_def)
qed

text \<open>
  C8 as the specification states it fails on a box that already holds a correspondence.
  With no correspondence inside the region the box's kptMatches is left as it was, not
  empty; with two inside, the one below the threshold is appended after the earlier entry,
  so the box does not hold exactly the filtered correspondences below the threshold.
\<close>

theorem populated_box_counterexample:
  "clusterKptMatchesWithROI (box_with [dmd 7 7 3]) [] [kpt 500 20] [dmd 0 0 1]
     = Inr (box_with [dmd 7 7 3])
   \<and> clusterKptMatchesWithROI (box_with [dmd 7 7 3]) [] [kpt 10 10, kpt 20 20]
       [dmd 0 0 1, dmd 1 1 4]
     = Inr (box_with [dmd 7 7 3, dmd 0 0 1])"
  by (simp add: clusterKptMatchesWithROI_def vec_at_def roi_contains_kpt_def
      Point2f_to_Point_def saturate_cast_int_def rect_contains_def kpt_def dmd_def box_with_def
      int_range_def Let_def)

theorem clusterKptMatchesWithROI_outliers_witness:
  "curr_ok [kpt 10 10, kpt 20 20, kpt 500 20] [dmd 0 0 1, dmd 1 1 4, dmd 2 2 1]
   \<and> clusterKptMatchesWithROI (box 0 0 100 100) [] [kpt 10 10, kpt 20 20, kpt 500 20]
        [dmd 0 0 1, dmd 1 1 4, dmd 2 2 1]
      = Inr ((box 0 0 100 100)\<lparr>kptMatches := [dmd 0 0 1]\<rparr>)"
proof -
  have ok: "curr_ok [kpt 10 10, kpt 20 20, kpt 500 20] [dmd 0 0 1, dmd 1 1 4, dmd 2 2 1]"
    by (simp add: curr_ok_def kpt_def dmd_def int_range_def)
  have sel: "filter (in_roi (roi (box 0 0 100 100)) [kpt 10 10, kpt 20 20, kpt 500 20])
        [dmd 0 0 1, dmd 1 1 4, dmd 2 2 1] = [dmd 0 0 1, dmd 1 1 4]"
    by (simp add: in_roi_def rect_contains_def kpt_def dmd_def box_def)
  have m: "mean_distance [dmd 0 0 1, dmd 1 1 4] = 5 / 2"
    by (simp add: mean_distance_def dmd_def)
  note inst = clusterKptMatchesWithROI_outliers [OF ok, of "box 0 0 100 100" "[]" 0]
  from inst [unfolded sel m] ok show ?thesis
    by (simp add: dmd_def box_def)
qed

section \<open>Properties of clusterLidarWithROI\<close>

subsection \<open>The projection\<close>

lemma sum_list_upt: "sum_list (map f [0..<n]) = sum f {..<n}"
  by (simp add: interv_sum_list_conv_sum_set_nat atLeast0LessThan)

lemma flat_index:
  assumes "i < r" "j < c"
  shows "i * c + j < r * (c::nat)"
proof -
  have "i * c + j < i * c + c" using assms(2) by simp
  also have "\<dots> = Suc i * c" by simp
  also have "\<dots> \<le> r * c" using assms(1) by (intro mult_le_mono1) simp
  finally show ?thesis .
qed

lemma el_mat_prod:
  assumes "i < rows A" "j < cols B"
  shows "el (mat_prod A B) i j = (\<Sum>k<cols A. el A i k * el B k j)"
proof -
  let ?f = "\<lambda>n. sum_list (map (\<lambda>k. el A (n div cols B) k * el B k (n mod cols B)) [0..<cols A])"
  have lt: "i * cols B + j < rows A * cols B" using assms by (rule flat_index)
  have dv: "(i * cols B + j) div cols B = i" using assms(2) by simp
  have md: "(i * cols B + j) mod cols B = j" using assms(2) by simp
  have "el (mat_prod A B) i j = map ?f [0..<rows A * cols B] ! (i * cols B + j)"
    unfolding el_def [of "mat_prod A B"] by (simp add: mat_prod_def)
  also have "\<dots> = ?f (i * cols B + j)"
    using lt by (simp del: upt_Suc)
  also have "\<dots> = sum_list (map (\<lambda>k. el A i k * el B k j) [0..<cols A])"
    unfolding dv md ..
  finally show ?thesis by (simp only: sum_list_upt)
qed

lemma dims_mat_prod [simp]:
  "rows (mat_prod A B) = rows A" "cols (mat_prod A B) = cols B"
  "length (dat (mat_prod A B)) = rows A * cols B"
  by (simp_all add: mat_prod_def)

lemma mat_vec_nth:
  assumes "i < rows M"
  shows "mat_vec M v ! i = (\<Sum>k<cols M. el M i k * v ! k)"
  using assms by (simp add: mat_vec_def sum_list_upt)

lemma triple_sum:
  fixes a :: "nat \<Rightarrow> real"
  shows "(\<Sum>k\<in>K. (\<Sum>l\<in>L. (\<Sum>m\<in>M. a m * b m l) * c l k) * x k)
       = (\<Sum>m\<in>M. a m * (\<Sum>l\<in>L. b m l * (\<Sum>k\<in>K. c l k * x k)))"
proof -
  have "(\<Sum>k\<in>K. (\<Sum>l\<in>L. (\<Sum>m\<in>M. a m * b m l) * c l k) * x k)
      = (\<Sum>k\<in>K. \<Sum>l\<in>L. \<Sum>m\<in>M. a m * (b m l * (c l k * x k)))"
    by (simp add: sum_distrib_right mult.assoc)
  also have "\<dots> = (\<Sum>l\<in>L. \<Sum>k\<in>K. \<Sum>m\<in>M. a m * (b m l * (c l k * x k)))"
    by (rule sum.swap)
  also have "\<dots> = (\<Sum>l\<in>L. \<Sum>m\<in>M. \<Sum>k\<in>K. a m * (b m l * (c l k * x k)))"
    by (rule sum.cong [OF refl]) (rule sum.swap)
  also have "\<dots> = (\<Sum>m\<in>M. \<Sum>l\<in>L. \<Sum>k\<in>K. a m * (b m l * (c l k * x k)))"
    by (rule sum.swap)
  also have "\<dots> = (\<Sum>m\<in>M. a m * (\<Sum>l\<in>L. b m l * (\<Sum>k\<in>K. c l k * x k)))"
    by (simp add: sum_distrib_left)
  finally show ?thesis .
qed

lemma dims_col4 [simp]: "rows (col4 p) = 4" "cols (col4 p) = 1" "length (dat (col4 p)) = 4"
  by (simp_all add: col4_def)

lemma el_col4: "el (col4 p) k 0 = [lp_x p, lp_y p, lp_z p, 1] ! k"
  by (simp add: el_def col4_def)

lemma el_Y:
  assumes ok: "calib_ok P R RT" and i: "i < 3"
  shows "el (mat_prod (mat_prod (mat_prod P R) RT) (col4 p)) i 0 = homog P R RT p ! i"
proof -
  let ?v = "[lp_x p, lp_y p, lp_z p, 1]"
  from ok have d: "rows P = 3" "cols P = rows R" "cols R = rows RT" "cols RT = 4"
    by (simp_all add: calib_ok_def)
  have iP: "i < rows P" using i d by simp
  have "el (mat_prod (mat_prod (mat_prod P R) RT) (col4 p)) i 0
      = (\<Sum>k<cols RT. el (mat_prod (mat_prod P R) RT) i k * ?v ! k)"
    using iP by (simp add: el_mat_prod el_col4)
  also have "\<dots> = (\<Sum>k<cols RT. (\<Sum>l<cols R. el (mat_prod P R) i l * el RT l k) * ?v ! k)"
    using iP by (intro sum.cong refl) (simp add: el_mat_prod)
  also have "\<dots> = (\<Sum>k<cols RT. (\<Sum>l<cols R. (\<Sum>m<cols P. el P i m * el R m l) * el RT l k) * ?v ! k)"
    using iP by (intro sum.cong refl arg_cong2 [of _ _ _ _ "(*)"]) (simp_all add: el_mat_prod)
  also have "\<dots> = (\<Sum>m<cols P. el P i m * (\<Sum>l<cols R. el R m l * (\<Sum>k<cols RT. el RT l k * ?v ! k)))"
    by (rule triple_sum)
  also have "\<dots> = (\<Sum>m<cols P. el P i m * (\<Sum>l<cols R. el R m l * mat_vec RT ?v ! l))"
    using d by (intro sum.cong refl arg_cong2 [of _ _ _ _ "(*)"]) (simp_all add: mat_vec_nth)
  also have "\<dots> = (\<Sum>m<cols P. el P i m * mat_vec R (mat_vec RT ?v) ! m)"
    using d by (intro sum.cong refl arg_cong2 [of _ _ _ _ "(*)"]) (simp_all add: mat_vec_nth)
  also have "\<dots> = homog P R RT p ! i"
    using iP by (simp add: homog_def mat_vec_nth)
  finally show ?thesis .
qed

lemma project_eq:
  assumes ok: "calib_ok P R RT"
    and w: "homog P R RT p ! 2 \<noteq> 0"
    and u: "int_range (homog P R RT p ! 0 / homog P R RT p ! 2)"
    and v: "int_range (homog P R RT p ! 1 / homog P R RT p ! 2)"
  shows "project P R RT p =
     Inr (trunc (homog P R RT p ! 0 / homog P R RT p ! 2),
          trunc (homog P R RT p ! 1 / homog P R RT p ! 2))"
proof -
  let ?Y = "mat_prod (mat_prod (mat_prod P R) RT) (col4 p)"
  from ok have d: "rows P = 3" "cols P = rows R" "cols R = rows RT" "cols RT = 4"
    by (simp_all add: calib_ok_def)
  have len: "length (dat ?Y) = 3" using d by simp
  have a00: "mat_at ?Y 0 0 = Inr (homog P R RT p ! 0)"
    using el_Y [OF ok, of 0 p] len by (simp add: mat_at_def el_def)
  have a10: "mat_at ?Y 1 0 = Inr (homog P R RT p ! 1)"
    using el_Y [OF ok, of 1 p] len by (simp add: mat_at_def el_def)
  have a02: "mat_at ?Y 0 2 = Inr (homog P R RT p ! 2)"
    using el_Y [OF ok, of 2 p] len by (simp add: mat_at_def el_def numeral_2_eq_2)
  have m1: "mat_mul P R = Inr (mat_prod P R)" using d by (simp add: mat_mul_def)
  have m2: "mat_mul (mat_prod P R) RT = Inr (mat_prod (mat_prod P R) RT)"
    using d by (simp add: mat_mul_def)
  have m3: "mat_mul (mat_prod (mat_prod P R) RT) (col4 p) = Inr ?Y"
    using d by (simp add: mat_mul_def)
  show ?thesis
    unfolding project_def Let_def col4_def [symmetric]
    using w u v by (simp add: m1 m2 m3 a00 a10 [unfolded One_nat_def] a02)
qed

subsection \<open>The association\<close>

lemma shrink_eq: "shrink_ok s r \<Longrightarrow> shrink s r = Inr (shrunk s r)"
  by (simp add: shrink_ok_def shrink_def shrunk_def)

lemma upt_0_Suc: "[0..<Suc n] = 0 # map Suc [0..<n]"
  by (simp add: upt_conv_Cons map_Suc_upt del: upt_Suc)

lemma enclosing_eq:
  assumes "\<forall>b \<in> set bs. shrink_ok s (roi b)"
  shows "enclosing s px bs k =
     Inr (map (\<lambda>j. k + j) (filter (\<lambda>j. rect_contains (shrunk s (roi (bs ! j))) px) [0..<length bs]))"
  using assms
proof (induction bs arbitrary: k)
  case Nil
  then show ?case by simp
next
  case (Cons b bs)
  then have ih: "enclosing s px bs (Suc k) =
     Inr (map (\<lambda>j. Suc k + j) (filter (\<lambda>j. rect_contains (shrunk s (roi (bs ! j))) px) [0..<length bs]))"
    by simp
  from Cons.prems have sb: "shrink s (roi b) = Inr (shrunk s (roi b))"
    by (simp add: shrink_eq)
  show ?case
    by (simp add: sb ih upt_0_Suc filter_map o_def del: upt_Suc)
qed

lemma enclosing_enc_idx:
  assumes "\<forall>b \<in> set bs. shrink_ok s (roi b)"
  shows "enclosing s px bs 0 = Inr (enc_idx s (map roi bs) px)"
proof -
  have "filter (\<lambda>j. rect_contains (shrunk s (roi (bs ! j))) px) [0..<length bs]
        = filter (\<lambda>j. rect_contains (shrunk s (map roi bs ! j)) px) [0..<length bs]"
    by (rule filter_cong) simp_all
  then show ?thesis
    using enclosing_eq [OF assms, of px 0] by (simp add: enc_idx_def)
qed

lemma singleton_filter_upt:
  "filter Q [0..<n] = [i] \<longleftrightarrow> i < n \<and> Q i \<and> (\<forall>j < n. Q j \<longrightarrow> j = i)"
proof
  assume eq: "filter Q [0..<n] = [i]"
  then have "set (filter Q [0..<n]) = {i}" by simp
  then have "{j. j < n \<and> Q j} = {i}" by (simp add: conj_commute)
  then show "i < n \<and> Q i \<and> (\<forall>j < n. Q j \<longrightarrow> j = i)" by blast
next
  assume a: "i < n \<and> Q i \<and> (\<forall>j < n. Q j \<longrightarrow> j = i)"
  then have s: "set (filter Q [0..<n]) = {i}" by auto
  have d: "distinct (filter Q [0..<n])" by simp
  have "card (set (filter Q [0..<n])) = length (filter Q [0..<n])"
    using d by (rule distinct_card)
  then have "length (filter Q [0..<n]) = 1" unfolding s by simp
  then obtain x where x: "filter Q [0..<n] = [x]"
    by (cases "filter Q [0..<n]") (auto split: if_splits)
  with s show "filter Q [0..<n] = [i]" by simp
qed

lemma enc_idx_single: "enc_idx s rs px = [i] \<longleftrightarrow> only_box s rs px i"
  unfolding enc_idx_def only_box_def by (rule singleton_filter_upt)

lemma attach_eq:
  "attach boxes (enc_idx s (map roi boxes) px) p =
     map (\<lambda>i. if only_box s (map roi boxes) px i then append_point (boxes ! i) [p] else boxes ! i)
       [0..<length boxes]"
proof (cases "length (enc_idx s (map roi boxes) px) = 1")
  case True
  then obtain i where e: "enc_idx s (map roi boxes) px = [i]"
    by (cases "enc_idx s (map roi boxes) px") auto
  then have ob: "only_box s (map roi boxes) px i" by (simp add: enc_idx_single)
  then have il: "i < length boxes" by (simp add: only_box_def)
  have other: "only_box s (map roi boxes) px j \<longleftrightarrow> j = i" for j
    using e enc_idx_single [of s "map roi boxes" px j] by auto
  show ?thesis
    by (rule nth_equalityI)
       (simp_all add: attach_def e Let_def other nth_list_update append_point_def il)
next
  case False
  then have "\<not> only_box s (map roi boxes) px i" for i
    using enc_idx_single [of s "map roi boxes" px i] by auto
  with False show ?thesis
    by (simp add: attach_def map_nth)
qed

lemma roi_append_point [simp]: "roi (append_point b ps) = roi b"
  by (simp add: append_point_def)

lemma cluster_eq:
  assumes "\<forall>p \<in> set pts. project P R RT p = Inr (pix p)"
    and "\<forall>b \<in> set boxes. shrink_ok s (roi b)"
  shows "clusterLidarWithROI boxes pts s P R RT =
     Inr (map (\<lambda>i. append_point (boxes ! i)
                      (filter (\<lambda>p. only_box s (map roi boxes) (pix p) i) pts))
            [0..<length boxes])"
  using assms
proof (induction pts arbitrary: boxes)
  case Nil
  show ?case by (simp add: append_point_def map_nth)
next
  case (Cons p ps)
  let ?rs = "map roi boxes"
  let ?bs = "map (\<lambda>i. if only_box s ?rs (pix p) i then append_point (boxes ! i) [p] else boxes ! i)
               [0..<length boxes]"
  have pr: "project P R RT p = Inr (pix p)" using Cons.prems(1) by simp
  have en: "enclosing s (pix p) boxes 0 = Inr (enc_idx s ?rs (pix p))"
    using Cons.prems(2) by (rule enclosing_enc_idx)
  have rs: "map roi ?bs = ?rs"
    by (rule nth_equalityI) simp_all
  have ok: "\<forall>b \<in> set ?bs. shrink_ok s (roi b)"
  proof
    fix b assume "b \<in> set ?bs"
    then obtain i where i: "i < length boxes" and b: "roi b = roi (boxes ! i)"
      by auto
    from i have "boxes ! i \<in> set boxes" by simp
    with Cons.prems(2) b show "shrink_ok s (roi b)" by simp
  qed
  have ps: "\<forall>q \<in> set ps. project P R RT q = Inr (pix q)" using Cons.prems(1) by simp
  have step: "clusterLidarWithROI boxes (p # ps) s P R RT = clusterLidarWithROI ?bs ps s P R RT"
    by (simp add: pr en attach_eq)
  show ?case
    unfolding step Cons.IH [OF ps ok] rs
    by (simp add: append_point_def)
qed

subsection \<open>Sample calibrations\<close>

lemma calib_P0: "calib_ok P0 I4 I4"
  by (simp add: calib_ok_def wf_Mat_def P0_def I4_def)

lemma homog_P0: "homog P0 I4 I4 p = [lp_x p, lp_y p, lp_z p]"
  by (simp add: homog_def mat_vec_def P0_def I4_def el_def upt_0_3 upt_0_4)

lemma calib_P1: "calib_ok P1 I4 RT1"
  by (simp add: calib_ok_def wf_Mat_def P1_def I4_def RT1_def)

lemma homog_P1: "homog P1 I4 RT1 p = [2 * (lp_x p + 1) + lp_z p, 2 * lp_y p + lp_z p, lp_z p]"
  by (simp add: homog_def mat_vec_def P1_def I4_def RT1_def el_def upt_0_3 upt_0_4)

lemma trunc_neg_half: "trunc (- (1 / 2)) = 0"
proof -
  have "\<lceil>- (1 / 2) :: real\<rceil> = 0" by (rule ceiling_unique) simp_all
  then show ?thesis by (simp add: trunc_def)
qed


lemma cluster_step:
  assumes "project P R RT p = Inr px" and "\<forall>b \<in> set boxes. shrink_ok s (roi b)"
  shows "clusterLidarWithROI boxes (p # ps) s P R RT =
     clusterLidarWithROI
       (map (\<lambda>i. if only_box s (map roi boxes) px i then append_point (boxes ! i) [p]
                  else boxes ! i) [0..<length boxes])
       ps s P R RT"
  using assms by (simp add: enclosing_enc_idx attach_eq)

lemma only_box_unique: "only_box s rs px i \<Longrightarrow> only_box s rs px j \<Longrightarrow> i = j"
  by (auto simp: only_box_def)

text \<open>
  C2 (amended). For a calibration whose dimensions chain up and a range point whose
  homogeneous scale is not zero, the pixel coordinate computed in clusterLidarWithROI is
  \<open>(u / w, v / w)\<close> with each component truncated toward zero to an int (if the quotient
  fits an int), where \<open>[u, v, w]\<close> is obtained by applying the extrinsic transform, then
  the rectification, then the projection matrix to \<open>[x, y, z, 1]\<close>; the divisor of both
  components, read as \<open>Y.at(0, 2)\<close>, is the third coordinate of that vector.
\<close>

theorem project_pixel:
  assumes "calib_ok P R RT" and "point_ok P R RT p"
  shows "project P R RT p =
     Inr (trunc (homog P R RT p ! 0 / homog P R RT p ! 2),
          trunc (homog P R RT p ! 1 / homog P R RT p ! 2))"
  using assms by (simp add: point_ok_def project_eq)

theorem project_pixel_witness:
  "calib_ok P1 I4 RT1 \<and> point_ok P1 I4 RT1 (lp3 3 5 2)
   \<and> homog P1 I4 RT1 (lp3 3 5 2) = [10, 12, 2]
   \<and> project P1 I4 RT1 (lp3 3 5 2) = Inr (5, 6)"
proof -
  have h: "homog P1 I4 RT1 (lp3 3 5 2) = [10, 12, 2]"
    by (simp add: homog_P1 lp3_def)
  have ok: "point_ok P1 I4 RT1 (lp3 3 5 2)"
    by (simp add: point_ok_def h int_range_def)
  from project_pixel [OF calib_P1 ok] calib_P1 ok h show ?thesis
    by simp
qed

text \<open>
  C2 as the specification states it fails where a quotient is not an integer: for
  \<open>[u, v, w] = [11, -1, 2]\<close> the quotients are 11/2 and -1/2 and the pixel is (5, 0).
\<close>

theorem project_truncates_counterexample:
  "homog P0 I4 I4 (lp3 11 (- 1) 2) ! 0 / homog P0 I4 I4 (lp3 11 (- 1) 2) ! 2 = 11 / 2
   \<and> homog P0 I4 I4 (lp3 11 (- 1) 2) ! 1 / homog P0 I4 I4 (lp3 11 (- 1) 2) ! 2 = - (1 / 2)
   \<and> project P0 I4 I4 (lp3 11 (- 1) 2) = Inr (5, 0)"
  using project_eq [OF calib_P0, of "lp3 11 (- 1) 2"] trunc_neg_half
  by (simp add: homog_P0 lp3_def int_range_def trunc_def)

text \<open>
  C3 (amended). clusterLidarWithROI has no guard on the homogeneous scale \<open>w\<close>: a range
  point with \<open>w \<noteq> 0\<close>, however close to zero, whose quotients fit an int is projected
  to the truncated \<open>(u / w, v / w)\<close> and associated like every other point (attached to
  the box that is the unique one whose shrunk region contains the pixel, if there is one);
  the remaining points are processed after it.
\<close>

theorem clusterLidarWithROI_no_scale_guard:
  assumes "calib_ok P R RT" and "point_ok P R RT p"
    and "boxes_ok s boxes"
  shows "clusterLidarWithROI boxes (p # ps) s P R RT =
     clusterLidarWithROI
       (map (\<lambda>i. if only_box s (map roi boxes)
                       (trunc (homog P R RT p ! 0 / homog P R RT p ! 2),
                        trunc (homog P R RT p ! 1 / homog P R RT p ! 2)) i
                  then append_point (boxes ! i) [p] else boxes ! i) [0..<length boxes])
       ps s P R RT"
proof -
  from assms(1,2) have "project P R RT p =
     Inr (trunc (homog P R RT p ! 0 / homog P R RT p ! 2),
          trunc (homog P R RT p ! 1 / homog P R RT p ! 2))"
    by (simp add: point_ok_def project_eq)
  moreover from assms(3) have "\<forall>b \<in> set boxes. shrink_ok s (roi b)"
    by (simp add: boxes_ok_def)
  ultimately show ?thesis by (rule cluster_step)
qed

lemma tiny_pos: "0 < tiny" "tiny \<noteq> 0"
  by (simp_all add: tiny_def)

lemma tiny_lt_eps: "\<bar>tiny\<bar> < dbl_epsilon"
  by (simp add: tiny_def dbl_epsilon_def)

lemma shrunk_box200:
  "shrunk 0 (roi (box 0 0 200 200)) = \<lparr>rx = 0, ry = 0, rwidth = 200, rheight = 200\<rparr>"
  "shrink_ok 0 (roi (box 0 0 200 200))"
  by (simp_all add: shrunk_def shrink_ok_def box_def int_range_def fl_eval)

lemma shrunk_s01:
  "shrunk s01 (roi (box 0 0 10 10)) = \<lparr>rx = 0, ry = 0, rwidth = 9, rheight = 9\<rparr>"
  "shrunk s01 (roi (box 4 4 10 10)) = \<lparr>rx = 4, ry = 4, rwidth = 9, rheight = 9\<rparr>"
  by (simp_all add: shrunk_def box_def s01_def trunc_def fl_eval)

lemma shrink_ok_s01:
  "shrink_ok s01 (roi (box 0 0 10 10))" "shrink_ok s01 (roi (box 4 4 10 10))"
  by (simp_all add: shrink_ok_def box_def s01_def int_range_def fl_eval)

text \<open>
  C3 as the specification states it fails: a range point whose homogeneous scale is
  \<open>1 / 2 ^ 60\<close>, within machine epsilon of zero, is not skipped but attached to the box
  that contains its pixel (100, 50).
\<close>

theorem tiny_scale_attached_counterexample:
  "\<bar>homog P0 I4 I4 (lp3 (100 * tiny) (50 * tiny) tiny) ! 2\<bar> < dbl_epsilon
   \<and> clusterLidarWithROI [box 0 0 200 200] [lp3 (100 * tiny) (50 * tiny) tiny] 0 P0 I4 I4
       = Inr [append_point (box 0 0 200 200) [lp3 (100 * tiny) (50 * tiny) tiny]]"
proof -
  let ?p = "lp3 (100 * tiny) (50 * tiny) tiny"
  have pr: "project P0 I4 I4 ?p = Inr (100, 50)"
    using project_eq [OF calib_P0, of ?p] tiny_pos
    by (simp add: homog_P0 lp3_def int_range_def)
  have sh: "\<forall>b \<in> set [box 0 0 200 200]. shrink_ok 0 (roi b)"
    by (simp add: shrunk_box200)
  have ob: "only_box 0 (map roi [box 0 0 200 200]) (100, 50) 0"
    by (simp add: only_box_def shrunk_box200 rect_contains_def)
  have w: "\<bar>homog P0 I4 I4 ?p ! 2\<bar> < dbl_epsilon"
    using tiny_lt_eps by (simp add: homog_P0 lp3_def)
  have "clusterLidarWithROI [box 0 0 200 200] [?p] 0 P0 I4 I4
      = Inr [append_point (box 0 0 200 200) [?p]]"
    unfolding cluster_step [OF pr sh] using ob by simp
  with w show ?thesis by simp
qed

theorem clusterLidarWithROI_no_scale_guard_witness:
  "calib_ok P0 I4 I4 \<and> point_ok P0 I4 I4 (lp3 (8 * tiny) (5 * tiny) tiny)
   \<and> boxes_ok s01 [box 0 0 10 10]
   \<and> \<bar>homog P0 I4 I4 (lp3 (8 * tiny) (5 * tiny) tiny) ! 2\<bar> < dbl_epsilon
   \<and> clusterLidarWithROI [box 0 0 10 10] [lp3 (8 * tiny) (5 * tiny) tiny] s01 P0 I4 I4
       = Inr [append_point (box 0 0 10 10) [lp3 (8 * tiny) (5 * tiny) tiny]]"
proof -
  let ?p = "lp3 (8 * tiny) (5 * tiny) tiny"
  have h: "homog P0 I4 I4 ?p = [8 * tiny, 5 * tiny, tiny]"
    by (simp add: homog_P0 lp3_def)
  have ok: "point_ok P0 I4 I4 ?p"
    using tiny_pos by (simp add: point_ok_def h int_range_def)
  have sh: "boxes_ok s01 [box 0 0 10 10]"
    by (simp add: boxes_ok_def shrink_ok_s01)
  have ob: "only_box s01 (map roi [box 0 0 10 10]) (8, 5) 0"
    by (simp add: only_box_def shrunk_s01 rect_contains_def)
  from clusterLidarWithROI_no_scale_guard [OF calib_P0 ok sh, of "[]"] calib_P0 ok sh tiny_lt_eps
    tiny_pos ob
  show ?thesis by (simp add: h)
qed

lemma project_pixel_all:
  assumes "calib_ok P R RT" and "points_ok P R RT pts"
  shows "\<forall>p \<in> set pts. project P R RT p = Inr (pixel P R RT p)"
  using assms by (simp add: points_ok_def point_ok_def pixel_def project_eq)

text \<open>
  C9. For a calibration whose dimensions chain up, range points with non-zero homogeneous
  scale and quotients in the int range, and boxes whose shrunk regions (computed in float,
  as the source does) fit the int range, clusterLidarWithROI returns the boxes with, for
  each box, exactly those range points appended (in order) for which that box is the unique
  box whose shrunk region contains the point's projected pixel. A point whose pixel lies in
  no shrunk region, or in two or more, is appended to no box, no error is raised, and no
  point is appended to two boxes.
\<close>

theorem clusterLidarWithROI_unique_box:
  assumes "calib_ok P R RT" and "points_ok P R RT pts" and "boxes_ok s boxes"
  shows "clusterLidarWithROI boxes pts s P R RT =
           Inr (map (\<lambda>i. append_point (boxes ! i)
                            (filter (\<lambda>p. only_box s (map roi boxes) (pixel P R RT p) i) pts))
                  [0..<length boxes])
     \<and> (\<forall>p i j. only_box s (map roi boxes) (pixel P R RT p) i
                  \<and> only_box s (map roi boxes) (pixel P R RT p) j \<longrightarrow> i = j)"
proof -
  have pr: "\<forall>p \<in> set pts. project P R RT p = Inr (pixel P R RT p)"
    using assms(1,2) by (rule project_pixel_all)
  have sh: "\<forall>b \<in> set boxes. shrink_ok s (roi b)"
    using assms(3) by (simp add: boxes_ok_def)
  from cluster_eq [OF pr sh] show ?thesis
    by (auto dest: only_box_unique)
qed

lemma points_ok_pts4: "points_ok P0 I4 I4 pts4"
  by (simp add: points_ok_def point_ok_def homog_P0 pts4_def lp3_def int_range_def)

lemma pixel_P0: "pixel P0 I4 I4 p = (trunc (lp_x p / lp_z p), trunc (lp_y p / lp_z p))"
  by (simp add: pixel_def homog_P0)

lemma boxes_ok_boxes2: "boxes_ok s01 boxes2"
  by (simp add: boxes_ok_def boxes2_def shrink_ok_s01)

lemma only_box_boxes2:
  "only_box s01 (map roi boxes2) px i \<longleftrightarrow>
     (i = 0 \<and> rect_contains \<lparr>rx = 0, ry = 0, rwidth = 9, rheight = 9\<rparr> px
            \<and> \<not> rect_contains \<lparr>rx = 4, ry = 4, rwidth = 9, rheight = 9\<rparr> px)
   \<or> (i = 1 \<and> rect_contains \<lparr>rx = 4, ry = 4, rwidth = 9, rheight = 9\<rparr> px
            \<and> \<not> rect_contains \<lparr>rx = 0, ry = 0, rwidth = 9, rheight = 9\<rparr> px)"
  unfolding enc_idx_single [symmetric]
  by (auto simp: enc_idx_def boxes2_def upt_0_2 shrunk_s01)

lemma attached_boxes2:
  "filter (\<lambda>p. only_box s01 (map roi boxes2) (pixel P0 I4 I4 p) 0) pts4 = [lp3 8 2 1]"
  "filter (\<lambda>p. only_box s01 (map roi boxes2) (pixel P0 I4 I4 p) (Suc 0)) pts4 = [lp3 12 12 1]"
  by (simp_all add: only_box_boxes2 pts4_def pixel_P0 lp3_def rect_contains_def)

theorem clusterLidarWithROI_unique_box_witness:
  "calib_ok P0 I4 I4 \<and> points_ok P0 I4 I4 pts4 \<and> boxes_ok s01 boxes2
   \<and> clusterLidarWithROI boxes2 pts4 s01 P0 I4 I4
       = Inr [append_point (box 0 0 10 10) [lp3 8 2 1], append_point (box 4 4 10 10) [lp3 12 12 1]]"
proof -
  have l: "[0..<length boxes2] = [0, Suc 0]"
    by (simp add: boxes2_def upt_0_2)
  have n: "boxes2 ! 0 = box 0 0 10 10" "boxes2 ! Suc 0 = box 4 4 10 10"
    by (simp_all add: boxes2_def)
  from clusterLidarWithROI_unique_box [OF calib_P0 points_ok_pts4 boxes_ok_boxes2]
    calib_P0 points_ok_pts4 boxes_ok_boxes2
  show ?thesis
    by (simp add: l n attached_boxes2)
qed

section \<open>The associators only append\<close>

lemma cluster_kpt_kept:
  assumes "curr_ok kc ms"
  shows "clusterKptMatchesWithROI b kp kc ms =
           Inr (b\<lparr>kptMatches := kptMatches b @ kept (roi b) kc ms\<rparr>)"
proof (cases "filter (in_roi (roi b) kc) ms = []")
  case True
  then have "kept (roi b) kc ms = []" by (simp add: kept_def)
  with True show ?thesis by (simp add: cluster_kpt_eq [OF assms])
next
  case False
  have "kept (roi b) kc ms =
      filter (\<lambda>m. distance m < 0.8 * mean_distance (filter (in_roi (roi b) kc) ms))
        (filter (in_roi (roi b) kc) ms)"
    unfolding kept_def Let_def ..
  with False show ?thesis by (simp add: cluster_kpt_eq [OF assms] Let_def)
qed

lemma cluster_twice:
  assumes pr: "\<forall>p \<in> set pts. project P R RT p = Inr (pix p)"
    and sh: "\<forall>b \<in> set boxes. shrink_ok s (roi b)"
  shows "clusterLidarWithROI
           (map (\<lambda>i. append_point (boxes ! i) (attached s (map roi boxes) pix pts i))
              [0..<length boxes]) pts s P R RT =
         Inr (map (\<lambda>i. append_point (boxes ! i)
                          (attached s (map roi boxes) pix pts i @ attached s (map roi boxes) pix pts i))
                [0..<length boxes])"
proof -
  let ?D = "attached s (map roi boxes) pix pts"
  let ?B = "map (\<lambda>i. append_point (boxes ! i) (?D i)) [0..<length boxes]"
  have rs: "map roi ?B = map roi boxes"
    by (rule nth_equalityI) simp_all
  have ok: "\<forall>b \<in> set ?B. shrink_ok s (roi b)"
  proof
    fix b assume "b \<in> set ?B"
    then obtain i where i: "i < length boxes" and b: "roi b = roi (boxes ! i)"
      by auto
    from i have "boxes ! i \<in> set boxes" by simp
    with sh b show "shrink_ok s (roi b)" by simp
  qed
  show ?thesis
    unfolding cluster_eq [OF pr ok] rs
    by (simp add: append_point_def attached_def)
qed

text \<open>
  C10. Both associators only append. For a calibration whose dimensions chain up, range
  points with a defined pixel and boxes with defined shrunk regions, clusterLidarWithROI
  returns every box with its earlier lidarPoints as a prefix, followed by the points
  attached to it, and a second call on the result with the same inputs appends the same
  points once more. For correspondences that index current-frame keypoints,
  clusterKptMatchesWithROI returns the box with its earlier kptMatches as a prefix, followed
  by the retained correspondences, and a second call on the result appends the same
  correspondences once more. All other fields of the boxes are unchanged.
\<close>

theorem associators_append_only:
  assumes "calib_ok P R RT" and "points_ok P R RT pts" and "boxes_ok s boxes"
    and "curr_ok kc ms"
  shows "clusterLidarWithROI boxes pts s P R RT =
           Inr (map (\<lambda>i. append_point (boxes ! i)
                            (attached s (map roi boxes) (pixel P R RT) pts i))
                  [0..<length boxes])
     \<and> clusterLidarWithROI
           (map (\<lambda>i. append_point (boxes ! i)
                      (attached s (map roi boxes) (pixel P R RT) pts i))
              [0..<length boxes]) pts s P R RT =
           Inr (map (\<lambda>i. append_point (boxes ! i)
                            (attached s (map roi boxes) (pixel P R RT) pts i
                               @ attached s (map roi boxes) (pixel P R RT) pts i))
                  [0..<length boxes])
     \<and> clusterKptMatchesWithROI b kp kc ms =
           Inr (b\<lparr>kptMatches := kptMatches b @ kept (roi b) kc ms\<rparr>)
     \<and> clusterKptMatchesWithROI (b\<lparr>kptMatches := kptMatches b @ kept (roi b) kc ms\<rparr>) kp kc ms =
           Inr (b\<lparr>kptMatches := kptMatches b @ kept (roi b) kc ms @ kept (roi b) kc ms\<rparr>)"
proof -
  have pr: "\<forall>p \<in> set pts. project P R RT p = Inr (pixel P R RT p)"
    using assms(1,2) by (rule project_pixel_all)
  have sh: "\<forall>b \<in> set boxes. shrink_ok s (roi b)"
    using assms(3) by (simp add: boxes_ok_def)
  have one: "clusterLidarWithROI boxes pts s P R RT =
           Inr (map (\<lambda>i. append_point (boxes ! i)
                            (attached s (map roi boxes) (pixel P R RT) pts i))
                  [0..<length boxes])"
    using cluster_eq [OF pr sh] by (simp add: attached_def)
  have two: "clusterKptMatchesWithROI (b\<lparr>kptMatches := kptMatches b @ kept (roi b) kc ms\<rparr>) kp kc ms =
           Inr (b\<lparr>kptMatches := kptMatches b @ kept (roi b) kc ms @ kept (roi b) kc ms\<rparr>)"
    by (simp add: cluster_kpt_kept [OF assms(4)])
  from one cluster_twice [OF pr sh] cluster_kpt_kept [OF assms(4)] two
  show ?thesis by simp
qed

lemma curr_ok_3: "curr_ok kpts3 matches3"
  by (simp add: curr_ok_def kpts3_def matches3_def kpt_def dmd_def int_range_def)

lemma kept_3: "kept (roi (box 0 0 100 100)) kpts3 matches3 = [dmd 0 0 1]"
proof -
  have sel: "filter (in_roi (roi (box 0 0 100 100)) kpts3) matches3 = [dmd 0 0 1, dmd 1 1 4]"
    by (simp add: in_roi_def rect_contains_def kpts3_def matches3_def kpt_def dmd_def box_def)
  have m: "mean_distance [dmd 0 0 1, dmd 1 1 4] = 5 / 2"
    by (simp add: mean_distance_def dmd_def)
  show ?thesis
    unfolding kept_def Let_def sel m by (simp add: dmd_def)
qed

lemma attached_pts4:
  "attached s01 (map roi boxes2) (pixel P0 I4 I4) pts4 0 = [lp3 8 2 1]"
  "attached s01 (map roi boxes2) (pixel P0 I4 I4) pts4 (Suc 0) = [lp3 12 12 1]"
  by (simp_all add: attached_def attached_boxes2)

theorem associators_append_only_witness:
  "calib_ok P0 I4 I4 \<and> points_ok P0 I4 I4 pts4 \<and> boxes_ok s01 boxes2
   \<and> curr_ok kpts3 matches3
   \<and> clusterLidarWithROI
        [append_point (box 0 0 10 10) [lp3 8 2 1], append_point (box 4 4 10 10) [lp3 12 12 1]]
        pts4 s01 P0 I4 I4
       = Inr [append_point (box 0 0 10 10) [lp3 8 2 1, lp3 8 2 1],
              append_point (box 4 4 10 10) [lp3 12 12 1, lp3 12 12 1]]
   \<and> clusterKptMatchesWithROI ((box 0 0 100 100)\<lparr>kptMatches := [dmd 0 0 1]\<rparr>) [] kpts3 matches3
       = Inr ((box 0 0 100 100)\<lparr>kptMatches := [dmd 0 0 1, dmd 0 0 1]\<rparr>)"
proof -
  have l: "[0..<length boxes2] = [0, Suc 0]"
    by (simp add: boxes2_def upt_0_2)
  have n: "boxes2 ! 0 = box 0 0 10 10" "boxes2 ! Suc 0 = box 4 4 10 10"
    by (simp_all add: boxes2_def)
  have e: "kptMatches (box 0 0 100 100) = []"
    by (simp add: box_def)
  from associators_append_only [OF calib_P0 points_ok_pts4 boxes_ok_boxes2 curr_ok_3,
      of "box 0 0 100 100" "[]"]
    calib_P0 points_ok_pts4 boxes_ok_boxes2 curr_ok_3
  show ?thesis
    by (simp add: l n attached_pts4 kept_3 e)
qed

section \<open>Properties of matchBoundingBoxes\<close>

text \<open>
  C1. The claim: the containment scan for the current keypoint runs over all boxes of the
  current frame. The code at a previous frame with one box and a current frame with two
  boxes, one correspondence whose previous keypoint lies in the previous box and whose
  current keypoint lies in the second current box only: both scans run up to the previous
  frame's box count, the second current box is never looked at, no vote is cast and the
  previous box is matched to current box 0. A scan up to the current frame's box count
  finds the second current box.
\<close>

theorem matchBoundingBoxes_scan_bound:
  "count_votes prevFrame1 currFrame2 [dmd 0 0 1] [[0, 0]] = Inr [[0, 0]]
   \<and> scan_boxes (boundingBoxes currFrame2) (110, 10) [0..<length (boundingBoxes currFrame2)]
        = Inr [1]
   \<and> ebind (matchBoundingBoxes [dmd 0 0 1] Map.empty prevFrame1 currFrame2) (\<lambda>m. Inr (m 0))
        = Inr (Some 0)"
  by (simp add: prevFrame1_def currFrame2_def vec_idx_def cv_Point_def kpt_def dmd_def box_def
      int_range_def rect_contains_def matchBoundingBoxes_def upt_0_2 Let_def)


end
